theory Spec2Isabelle
  imports Complex_Main "HOL-Library.Word" "HOL-Library.Log_Nat"
begin

section \<open>IEEE 754 binary floating point, round to nearest even\<close>

text \<open>
  The firmware computes in C \<^verbatim>\<open>float\<close> (binary32); \<^verbatim>\<open>atof\<close> and the 8-byte wire
  encoding pass through \<^verbatim>\<open>double\<close> (binary64). A floating-point datum is a finite
  rational, the negative zero, an infinity or a NaN. Every arithmetic operation
  computes the exact rational result and rounds it to the format (round to nearest,
  ties to even), overflowing to an infinity; the special operands follow IEEE 754.
  NaN payloads are not distinguished.
\<close>

datatype fp = Fin rat | NZero | PInf | NInf | NaN

record fmt =
  prec :: nat
  emax :: int

definition binary32 :: fmt where
  "binary32 = \<lparr>prec = 24, emax = 127\<rparr>"

definition binary64 :: fmt where
  "binary64 = \<lparr>prec = 53, emax = 1023\<rparr>"

definition pow2 :: "int \<Rightarrow> rat" where
  "pow2 e = (if 0 \<le> e then 2 ^ nat e else 1 / 2 ^ nat (- e))"

text \<open>Rounding a rational to the nearest integer, a tie going to the even neighbour.\<close>

definition rne :: "rat \<Rightarrow> int" where
  "rne x = (let f = \<lfloor>x\<rfloor>; r = x - of_int f in
            if r < 1 / 2 then f
            else if 1 / 2 < r then f + 1
            else if even f then f else f + 1)"

text \<open>The binary exponent of a positive rational: \<open>2 ^ ilog2 x \<le> x < 2 ^ (ilog2 x + 1)\<close>.\<close>

definition ilog2 :: "rat \<Rightarrow> int" where
  "ilog2 x = (if 1 \<le> x then bitlen \<lfloor>x\<rfloor> - 1 else - bitlen (\<lceil>1 / x\<rceil> - 1))"

definition zero_of :: "bool \<Rightarrow> fp" where
  "zero_of s = (if s then NZero else Fin 0)"

definition inf_of :: "bool \<Rightarrow> fp" where
  "inf_of s = (if s then NInf else PInf)"

text \<open>
  The spacing of the format's numbers around \<open>x\<close>: the exponent of \<open>x\<close>, but not below
  the least normal exponent \<open>1 - emax\<close> (the subnormal range has the spacing of the
  least binade).
\<close>

definition quantum :: "fmt \<Rightarrow> rat \<Rightarrow> rat" where
  "quantum f x = pow2 (max (ilog2 \<bar>x\<bar>) (1 - emax f) - int (prec f) + 1)"

definition rd :: "fmt \<Rightarrow> rat \<Rightarrow> rat" where
  "rd f x = of_int (rne (x / quantum f x)) * quantum f x"

text \<open>
  \<open>fround f s x\<close> rounds the exact result \<open>x\<close> to the format; \<open>s\<close> is the sign an exact
  zero result takes. A rounded magnitude of \<open>2 ^ (emax + 1)\<close> or more overflows.
\<close>

definition fround :: "fmt \<Rightarrow> bool \<Rightarrow> rat \<Rightarrow> fp" where
  "fround f s x =
     (if x = 0 then zero_of s
      else let y = rd f x in
        if pow2 (emax f + 1) \<le> \<bar>y\<bar> then inf_of (x < 0)
        else if y = 0 then zero_of (x < 0)
        else Fin y)"

fun valof :: "fp \<Rightarrow> rat" where
  "valof (Fin x) = x"
| "valof NZero = 0"
| "valof PInf = 0"
| "valof NInf = 0"
| "valof NaN = 0"

fun is_nan :: "fp \<Rightarrow> bool" where
  "is_nan NaN = True"
| "is_nan (Fin x) = False"
| "is_nan NZero = False"
| "is_nan PInf = False"
| "is_nan NInf = False"

fun is_inf :: "fp \<Rightarrow> bool" where
  "is_inf PInf = True"
| "is_inf NInf = True"
| "is_inf (Fin x) = False"
| "is_inf NZero = False"
| "is_inf NaN = False"

text \<open>The C macro \<^verbatim>\<open>isfinite\<close>.\<close>

fun isfinite :: "fp \<Rightarrow> bool" where
  "isfinite (Fin x) = True"
| "isfinite NZero = True"
| "isfinite PInf = False"
| "isfinite NInf = False"
| "isfinite NaN = False"

text \<open>The sign bit.\<close>

fun sign :: "fp \<Rightarrow> bool" where
  "sign (Fin x) = (x < 0)"
| "sign NZero = True"
| "sign PInf = False"
| "sign NInf = True"
| "sign NaN = False"

text \<open>Unary minus flips the sign bit.\<close>

fun fneg :: "fp \<Rightarrow> fp" where
  "fneg (Fin x) = (if x = 0 then NZero else Fin (- x))"
| "fneg NZero = Fin 0"
| "fneg PInf = NInf"
| "fneg NInf = PInf"
| "fneg NaN = NaN"

definition fadd :: "fp \<Rightarrow> fp \<Rightarrow> fp" where
  "fadd a b =
     (if is_nan a \<or> is_nan b then NaN
      else if is_inf a then (if is_inf b \<and> sign a \<noteq> sign b then NaN else a)
      else if is_inf b then b
      else fround binary32 (sign a \<and> sign b) (valof a + valof b))"

definition fsub :: "fp \<Rightarrow> fp \<Rightarrow> fp" where
  "fsub a b = fadd a (fneg b)"

definition fmul :: "fp \<Rightarrow> fp \<Rightarrow> fp" where
  "fmul a b =
     (if is_nan a \<or> is_nan b then NaN
      else if is_inf a then (if isfinite b \<and> valof b = 0 then NaN else inf_of (sign a \<noteq> sign b))
      else if is_inf b then (if valof a = 0 then NaN else inf_of (sign a \<noteq> sign b))
      else fround binary32 (sign a \<noteq> sign b) (valof a * valof b))"

definition fdiv :: "fp \<Rightarrow> fp \<Rightarrow> fp" where
  "fdiv a b =
     (if is_nan a \<or> is_nan b then NaN
      else if is_inf a then (if is_inf b then NaN else inf_of (sign a \<noteq> sign b))
      else if is_inf b then zero_of (sign a \<noteq> sign b)
      else if valof b = 0 then (if valof a = 0 then NaN else inf_of (sign a \<noteq> sign b))
      else fround binary32 (sign a \<noteq> sign b) (valof a / valof b))"

text \<open>
  The comparisons \<^verbatim>\<open><=\<close> and \<^verbatim>\<open><\<close>: false as soon as an operand is a NaN; the two
  zeros compare equal.
\<close>

definition fle :: "fp \<Rightarrow> fp \<Rightarrow> bool" where
  "fle a b =
     (if is_nan a \<or> is_nan b then False
      else if a = NInf \<or> b = PInf then True
      else if a = PInf \<or> b = NInf then False
      else valof a \<le> valof b)"

definition flt :: "fp \<Rightarrow> fp \<Rightarrow> bool" where
  "flt a b =
     (if is_nan a \<or> is_nan b then False
      else if a = PInf \<or> b = NInf then False
      else if a = NInf \<or> b = PInf then True
      else valof a < valof b)"

text \<open>The conversion \<^verbatim>\<open>(float)d\<close> of a double.\<close>

fun double_to_float :: "fp \<Rightarrow> fp" where
  "double_to_float (Fin x) = fround binary32 False x"
| "double_to_float NZero = NZero"
| "double_to_float PInf = PInf"
| "double_to_float NInf = NInf"
| "double_to_float NaN = NaN"

subsection \<open>Bit patterns\<close>

text \<open>
  \<^verbatim>\<open>memcpy\<close> of payload bytes into a scalar on the little-endian ESP32-C6: the first
  byte is the least significant.
\<close>

fun memcpy_word :: "char list \<Rightarrow> 'a::len word" where
  "memcpy_word [] = 0"
| "memcpy_word (c # cs) = of_char c + push_bit 8 (memcpy_word cs)"

definition decode32 :: "32 word \<Rightarrow> fp" where
  "decode32 w =
     (let s = bit w 31; e = uint (take_bit 8 (drop_bit 23 w)); m = uint (take_bit 23 w) in
      if e = 255 then (if m = 0 then inf_of s else NaN)
      else if e = 0 then
        (if m = 0 then zero_of s
         else Fin ((if s then - 1 else 1) * of_int m * pow2 (- 149)))
      else Fin ((if s then - 1 else 1) * of_int (2 ^ 23 + m) * pow2 (e - 150)))"

definition decode64 :: "64 word \<Rightarrow> fp" where
  "decode64 w =
     (let s = bit w 63; e = uint (take_bit 11 (drop_bit 52 w)); m = uint (take_bit 52 w) in
      if e = 2047 then (if m = 0 then inf_of s else NaN)
      else if e = 0 then
        (if m = 0 then zero_of s
         else Fin ((if s then - 1 else 1) * of_int m * pow2 (- 1074)))
      else Fin ((if s then - 1 else 1) * of_int (2 ^ 52 + m) * pow2 (e - 1075)))"

section \<open>The Arduino \<^verbatim>\<open>String\<close> operations the decoder calls\<close>

text \<open>
  \<^verbatim>\<open>String::trim\<close> and \<^verbatim>\<open>String::toFloat\<close> belong to the Arduino core, not to this
  repository. They are modelled after the C library they wrap: \<^verbatim>\<open>trim\<close> removes the
  \<^verbatim>\<open>isspace\<close> characters at both ends, \<^verbatim>\<open>toFloat\<close> returns \<^verbatim>\<open>atof(buffer)\<close>
  converted to \<^verbatim>\<open>float\<close>. \<^verbatim>\<open>atof\<close> is \<^verbatim>\<open>strtod\<close>: it skips leading white space,
  converts the longest initial part that has the form of a number (a decimal number, a
  hexadecimal number after \<^verbatim>\<open>0x\<close>, an infinity or a NaN, each after an optional sign),
  and returns zero when there is no such part.
\<close>

definition isspace :: "char \<Rightarrow> bool" where
  "isspace c = (let n = (of_char c :: int) in n = 32 \<or> (9 \<le> n \<and> n \<le> 13))"

definition isDigit :: "char \<Rightarrow> bool" where
  "isDigit c = (let n = (of_char c :: int) in 48 \<le> n \<and> n \<le> 57)"

definition trim :: "string \<Rightarrow> string" where
  "trim str = rev (dropWhile isspace (rev (dropWhile isspace str)))"

definition digit_val :: "char \<Rightarrow> int" where
  "digit_val c = of_char c - 48"

definition digits_val :: "string \<Rightarrow> int" where
  "digits_val ds = foldl (\<lambda>a c. 10 * a + digit_val c) 0 ds"

definition pow10 :: "int \<Rightarrow> rat" where
  "pow10 e = (if 0 \<le> e then 10 ^ nat e else 1 / 10 ^ nat (- e))"

fun scan_sign :: "string \<Rightarrow> bool \<times> string" where
  "scan_sign [] = (False, [])"
| "scan_sign (c # cs) =
     (if c = CHR ''-'' then (True, cs)
      else if c = CHR ''+'' then (False, cs)
      else (False, c # cs))"

text \<open>
  The exponent part: \<^verbatim>\<open>e\<close> or \<^verbatim>\<open>E\<close>, an optional sign and at least one digit. Without
  a digit the exponent part is not converted.
\<close>

fun scan_exp :: "string \<Rightarrow> int" where
  "scan_exp [] = 0"
| "scan_exp (c # cs) =
     (if c = CHR ''e'' \<or> c = CHR ''E'' then
        (let (neg, r) = scan_sign cs; ds = takeWhile isDigit r in
         if ds = [] then 0
         else if neg then - digits_val ds else digits_val ds)
      else 0)"

definition tolower :: "char \<Rightarrow> char" where
  "tolower c = (let n = (of_char c :: int) in if 65 \<le> n \<and> n \<le> 90 then char_of (n + 32) else c)"

text \<open>
  The hexadecimal form: \<^verbatim>\<open>0x\<close> or \<^verbatim>\<open>0X\<close>, hexadecimal digits with an optional point and
  at least one digit, and an optional binary exponent (\<^verbatim>\<open>p\<close> or \<^verbatim>\<open>P\<close>, an optional sign
  and at least one decimal digit). \<open>None\<close> when the text does not start with this form.
\<close>

definition isxdigit :: "char \<Rightarrow> bool" where
  "isxdigit c =
     (let n = (of_char c :: int)
      in (48 \<le> n \<and> n \<le> 57) \<or> (65 \<le> n \<and> n \<le> 70) \<or> (97 \<le> n \<and> n \<le> 102))"

definition xdigit_val :: "char \<Rightarrow> int" where
  "xdigit_val c =
     (let n = (of_char c :: int)
      in if n \<le> 57 then n - 48 else if n \<le> 70 then n - 55 else n - 87)"

definition xdigits_val :: "string \<Rightarrow> int" where
  "xdigits_val ds = foldl (\<lambda>a c. 16 * a + xdigit_val c) 0 ds"

fun scan_bexp :: "string \<Rightarrow> int" where
  "scan_bexp [] = 0"
| "scan_bexp (c # cs) =
     (if c = CHR ''p'' \<or> c = CHR ''P'' then
        (let (neg, r) = scan_sign cs; ds = takeWhile isDigit r in
         if ds = [] then 0
         else if neg then - digits_val ds else digits_val ds)
      else 0)"

fun strtod_hex :: "bool \<Rightarrow> string \<Rightarrow> fp option" where
  "strtod_hex neg (c0 # cx # h) =
     (if c0 = CHR ''0'' \<and> (cx = CHR ''x'' \<or> cx = CHR ''X'') then
        (let ip = takeWhile isxdigit h;
             h1 = dropWhile isxdigit h;
             fr = (case h1 of [] \<Rightarrow> [] | c # cs \<Rightarrow> if c = CHR ''.'' then takeWhile isxdigit cs else []);
             h2 = (case h1 of [] \<Rightarrow> [] | c # cs \<Rightarrow> if c = CHR ''.'' then dropWhile isxdigit cs else h1)
         in if ip = [] \<and> fr = [] then None
            else
              (let x = of_int (xdigits_val (ip @ fr)) * pow2 (scan_bexp h2 - 4 * int (length fr))
               in Some (fround binary64 neg (if neg then - x else x))))
      else None)"
| "strtod_hex neg [c0] = None"
| "strtod_hex neg [] = None"

definition strtod :: "string \<Rightarrow> fp" where
  "strtod str =
     (let (neg, r) = scan_sign (dropWhile isspace str)
      in case strtod_hex neg r of
           Some v \<Rightarrow> v
         | None \<Rightarrow>
            (let ip = takeWhile isDigit r;
                 r1 = dropWhile isDigit r;
                 fr = (case r1 of [] \<Rightarrow> [] | c # cs \<Rightarrow> if c = CHR ''.'' then takeWhile isDigit cs else []);
                 r2 = (case r1 of [] \<Rightarrow> [] | c # cs \<Rightarrow> if c = CHR ''.'' then dropWhile isDigit cs else r1)
             in if ip = [] \<and> fr = [] then
                  (if map tolower (take 3 r) = ''inf'' then inf_of neg
                   else if map tolower (take 3 r) = ''nan'' then NaN
                   else Fin 0)
                else
                  (let x = of_int (digits_val (ip @ fr)) * pow10 (scan_exp r2 - int (length fr))
                   in fround binary64 neg (if neg then - x else x))))"

definition toFloat :: "string \<Rightarrow> fp" where
  "toFloat str = double_to_float (strtod str)"

section \<open>The controller (\<^verbatim>\<open>src/Actuador.ino\<close>)\<close>

text \<open>
  What the firmware sends out, in the order it does: the lines it prints on the serial
  port, the angle it writes to the servo and the values it publishes. The formatting of a
  number as text is not modelled: an effect holds the number.
\<close>

datatype effect =
    Serial_PI_Error
  | Serial_PI_Coeffs fp fp fp fp fp
  | Serial_PI_Reset
  | Serial_Csv "32 word" fp fp fp fp fp
  | Serial_CB_Ascii string fp
  | Serial_CB_Binary8 fp nat
  | Serial_CB_Binary4 fp nat
  | Serial_CB_TooShort nat
  | Serial_CB_Invalid
  | Serial_New_SP fp
  | Serial_New_PV fp
  | Serial_Unhandled_Topic string
  | Servo_Write "int option"
  | Mqtt_Publish string fp

text \<open>
  The global variables of the firmware. \<^verbatim>\<open>sampleIndex\<close> is an \<^verbatim>\<open>unsigned long\<close>,
  32 bits wide on the ESP32-C6.
\<close>

record state =
  Kp :: fp
  Ti :: fp
  Kpos :: fp
  Kneg :: fp
  u_logic :: fp
  pos_deg :: fp
  temp_setpoint :: fp
  temp_actual :: fp
  error_k_1 :: fp
  sampleIndex :: "32 word"
  initial_state_reset :: bool
  effects :: "effect list"

definition emit :: "effect \<Rightarrow> state \<Rightarrow> state" where
  "emit e s = s\<lparr>effects := effects s @ [e]\<rparr>"

definition Tm :: fp where
  "Tm = Fin 1"

definition SERVO_DEG_MIN :: fp where
  "SERVO_DEG_MIN = Fin 0"

definition SERVO_DEG_MAX :: fp where
  "SERVO_DEG_MAX = Fin 180"

definition MQTT_SUB_TOPIC_KP :: string where
  "MQTT_SUB_TOPIC_KP = ''emu/kp_set''"

definition MQTT_SUB_TOPIC_TI :: string where
  "MQTT_SUB_TOPIC_TI = ''emu/ti_set''"

definition MQTT_SUB_TOPIC_SP :: string where
  "MQTT_SUB_TOPIC_SP = ''emu/t_sp''"

definition MQTT_SUB_TOPIC_PV :: string where
  "MQTT_SUB_TOPIC_PV = ''emu/t_act''"

definition MQTT_PUB_TOPIC_POS :: string where
  "MQTT_PUB_TOPIC_POS = ''emu/servo_pos''"

definition MQTT_PUB_TOPIC_U :: string where
  "MQTT_PUB_TOPIC_U = ''emu/u_out''"

definition scaleToDegrees :: "fp \<Rightarrow> fp" where
  "scaleToDegrees u =
     (let u1 = (if flt u (Fin 0) then Fin 0 else u);
          u2 = (if flt (Fin 100) u1 then Fin 100 else u1);
          span = fsub SERVO_DEG_MAX SERVO_DEG_MIN
      in fadd SERVO_DEG_MIN (fmul (fdiv u2 (Fin 100)) span))"

definition recalculateCoefficients :: "state \<Rightarrow> state" where
  "recalculateCoefficients s =
     (if fle (Ti s) (Fin 0) \<or> fle (Kp s) (Fin 0) then emit Serial_PI_Error s
      else
        (let T_factor = fdiv Tm (fmul (Fin 2) (Ti s));
             s1 = s\<lparr>Kpos := fmul (Kp s) (fadd (Fin 1) T_factor)\<rparr>;
             s2 = s1\<lparr>Kneg := fmul (fneg (Kp s1)) (fsub (Fin 1) T_factor)\<rparr>
         in emit (Serial_PI_Coeffs (Kp s2) (Ti s2) Tm (Kpos s2) (Kneg s2)) s2))"

text \<open>
  \<^verbatim>\<open>(int)roundf(deg)\<close>: \<^verbatim>\<open>roundf\<close> rounds a tie away from zero. The conversion of a
  NaN or an infinity to \<^verbatim>\<open>int\<close> is undefined in C: \<open>None\<close>.
\<close>

fun roundf_int :: "fp \<Rightarrow> int option" where
  "roundf_int (Fin x) = Some (if 0 \<le> x then \<lfloor>x + 1 / 2\<rfloor> else - \<lfloor>- x + 1 / 2\<rfloor>)"
| "roundf_int NZero = Some 0"
| "roundf_int PInf = None"
| "roundf_int NInf = None"
| "roundf_int NaN = None"

definition setServoDegrees :: "fp \<Rightarrow> state \<Rightarrow> state" where
  "setServoDegrees deg s =
     (let d1 = (if flt deg SERVO_DEG_MIN then SERVO_DEG_MIN else deg);
          d2 = (if flt SERVO_DEG_MAX d1 then SERVO_DEG_MAX else d1)
      in emit (Servo_Write (map_option (\<lambda>r. 180 - r) (roundf_int d2))) (s\<lparr>pos_deg := d2\<rparr>))"

text \<open>\<open>link\<close> is what \<^verbatim>\<open>mqtt.connected()\<close> returns.\<close>

definition publishState :: "bool \<Rightarrow> state \<Rightarrow> state" where
  "publishState link s =
     (if link then
        emit (Mqtt_Publish MQTT_PUB_TOPIC_U (u_logic s))
          (emit (Mqtt_Publish MQTT_PUB_TOPIC_POS (pos_deg s)) s)
      else s)"

definition applyControl :: "state \<Rightarrow> state" where
  "applyControl s =
     (let e_k = fsub (temp_setpoint s) (temp_actual s);
          u_new = fadd (fadd (u_logic s) (fmul (Kpos s) e_k)) (fmul (Kneg s) (error_k_1 s));
          u_new1 = (if flt u_new (Fin 0) then Fin 0 else u_new);
          u_new2 = (if flt (Fin 100) u_new1 then Fin 100 else u_new1);
          s1 = s\<lparr>error_k_1 := e_k\<rparr>;
          s2 = s1\<lparr>u_logic := u_new2\<rparr>;
          deg = scaleToDegrees u_new2
      in setServoDegrees deg s2)"

subsection \<open>The MQTT callback\<close>

text \<open>The character test of the loop over the first 64 bytes of the payload.\<close>

definition numeric_char :: "char \<Rightarrow> bool" where
  "numeric_char c =
     (isDigit c \<or> c = CHR ''.'' \<or> c = CHR ''-'' \<or> c = CHR ''+'' \<or>
      c = CHR ''e'' \<or> c = CHR ''E'' \<or> c = CHR '' '')"

definition isAsciiNumber :: "string \<Rightarrow> bool" where
  "isAsciiNumber payload = list_all numeric_char (take 64 payload)"

text \<open>
  The second half of \<^verbatim>\<open>mqttCallback\<close>, from the \<^verbatim>\<open>isfinite\<close> test on: what the
  callback does with the decoded value.
\<close>

definition mqttCallback_value :: "string \<Rightarrow> fp \<Rightarrow> state \<Rightarrow> state" where
  "mqttCallback_value topic v s =
     (if \<not> isfinite v then emit Serial_CB_Invalid s
      else if topic = MQTT_SUB_TOPIC_KP then
        (if flt (Fin 0) v then recalculateCoefficients (s\<lparr>Kp := v\<rparr>) else s)
      else if topic = MQTT_SUB_TOPIC_TI then
        (if flt (Fin 0) v then recalculateCoefficients (s\<lparr>Ti := v\<rparr>) else s)
      else if topic = MQTT_SUB_TOPIC_SP then
        emit (Serial_New_SP v) (s\<lparr>temp_setpoint := v\<rparr>)
      else if topic = MQTT_SUB_TOPIC_PV then
        emit (Serial_New_PV v) (s\<lparr>temp_actual := v\<rparr>)
      else emit (Serial_Unhandled_Topic topic) s)"

definition mqttCallback :: "string \<Rightarrow> string \<Rightarrow> state \<Rightarrow> state" where
  "mqttCallback topic payload s =
     (if isAsciiNumber payload then
        (let str = trim payload; v = toFloat str
         in mqttCallback_value topic v (emit (Serial_CB_Ascii str v) s))
      else if 8 \<le> length payload then
        (let v = double_to_float (decode64 (memcpy_word (take 8 payload)))
         in mqttCallback_value topic v (emit (Serial_CB_Binary8 v (length payload)) s))
      else if 4 \<le> length payload then
        (let v = decode32 (memcpy_word (take 4 payload))
         in mqttCallback_value topic v (emit (Serial_CB_Binary4 v (length payload)) s))
      else emit (Serial_CB_TooShort (length payload)) s)"

subsection \<open>The control task\<close>

text \<open>The block \<^verbatim>\<open>LOGICA DE RESET INICIAL\<close> of \<^verbatim>\<open>control_task\<close>.\<close>

definition reset_due :: "state \<Rightarrow> bool" where
  "reset_due s = (sampleIndex s = 5 \<and> \<not> initial_state_reset s)"

definition initial_reset :: "state \<Rightarrow> state" where
  "initial_reset s =
     (if reset_due s then
        (let s1 = emit Serial_PI_Reset s;
             s2 = s1\<lparr>u_logic := Fin 50\<rparr>;
             s3 = s2\<lparr>error_k_1 := Fin 0\<rparr>;
             s4 = s3\<lparr>initial_state_reset := True\<rparr>
         in s4\<lparr>temp_actual := temp_setpoint s4\<rparr>)
      else s)"

text \<open>The conversion of \<^verbatim>\<open>k\<close> to \<^verbatim>\<open>float\<close> in \<^verbatim>\<open>k * Tm\<close>.\<close>

definition ulong_to_float :: "32 word \<Rightarrow> fp" where
  "ulong_to_float k = fround binary32 False (of_int (uint k))"

text \<open>
  One turn of the loop of \<^verbatim>\<open>control_task\<close>, after \<^verbatim>\<open>vTaskDelayUntil\<close> returns.
  \<open>link\<close> is \<^verbatim>\<open>WiFi.status() == WL_CONNECTED && mqtt.connected()\<close>. The pulse of
  the LED is left out.
\<close>

definition control_task :: "bool \<Rightarrow> state \<Rightarrow> state" where
  "control_task link s =
     (if link then
        (let s1 = initial_reset s;
             s2 = applyControl s1;
             s3 = publishState link s2;
             k = sampleIndex s3;
             s4 = s3\<lparr>sampleIndex := k + 1\<rparr>;
             t = fmul (ulong_to_float k) Tm
         in emit (Serial_Csv k t (temp_setpoint s4) (temp_actual s4) (u_logic s4) (pos_deg s4)) s4)
      else s)"

subsection \<open>Start-up and runs\<close>

text \<open>The initial values of the globals (\<^verbatim>\<open>Kpos\<close> and \<^verbatim>\<open>Kneg\<close> are zero-initialised).\<close>

definition globals :: state where
  "globals =
     \<lparr>Kp = Fin 5, Ti = Fin 250, Kpos = Fin 0, Kneg = Fin 0, u_logic = Fin 25,
      pos_deg = Fin 0, temp_setpoint = Fin 25, temp_actual = Fin 25, error_k_1 = Fin 0,
      sampleIndex = 0, initial_state_reset = False, effects = []\<rparr>"

text \<open>
  What \<^verbatim>\<open>setup()\<close> does to the controller: the first coefficients and the first servo
  position. Its banner lines and the WiFi connection are left out.
\<close>

definition setup_controller :: "state \<Rightarrow> state" where
  "setup_controller s =
     (let s1 = recalculateCoefficients s;
          deg0 = scaleToDegrees (u_logic s1)
      in setServoDegrees deg0 s1)"

definition defaults :: state where
  "defaults = setup_controller globals"

text \<open>
  The two tasks, interleaved at the grain of one callback and one turn of the control
  loop: a run is a list of control periods (with the link up or down) and of messages
  (topic, payload).
\<close>

datatype input = Period bool | Message string string

fun step :: "state \<Rightarrow> input \<Rightarrow> state" where
  "step s (Period link) = control_task link s"
| "step s (Message topic payload) = mqttCallback topic payload s"

definition run :: "input list \<Rightarrow> state \<Rightarrow> state" where
  "run ins s = foldl step s ins"

text \<open>How many times a run executes the initial reset.\<close>

fun resets :: "input list \<Rightarrow> state \<Rightarrow> nat" where
  "resets [] s = 0"
| "resets (i # ins) s =
     (if i = Period True \<and> reset_due s then 1 else 0) + resets ins (step s i)"

definition control_steps :: "input list \<Rightarrow> nat" where
  "control_steps ins = length (filter (\<lambda>i. i = Period True) ins)"

section \<open>Evaluating the arithmetic on numerals\<close>

lemma floor_rat_numeral [simp]:
  "\<lfloor>numeral a / numeral b :: rat\<rfloor> = numeral a div numeral b"
  using floor_divide_of_int_eq[of "numeral a" "numeral b", where ?'a = rat] by simp

lemma floor_rat_neg_numeral [simp]:
  "\<lfloor>- (numeral a / numeral b) :: rat\<rfloor> = - numeral a div numeral b"
  using floor_divide_of_int_eq[of "- numeral a" "numeral b", where ?'a = rat] by simp

lemma ceiling_rat_numeral [simp]:
  "\<lceil>numeral a / numeral b :: rat\<rceil> = - (- numeral a div numeral b)"
  unfolding ceiling_def by simp

lemma bitlen_numeral_simps:
  "bitlen 1 = 1"
  "bitlen (numeral Num.One) = 1"
  "bitlen (numeral (Num.Bit0 n)) = bitlen (numeral n) + 1"
  "bitlen (numeral (Num.Bit1 n)) = bitlen (numeral n) + 1"
proof -
  show "bitlen 1 = 1" by (subst compute_bitlen) simp
  then show "bitlen (numeral Num.One) = 1" by simp
  show "bitlen (numeral (Num.Bit0 n)) = bitlen (numeral n) + 1"
    by (subst compute_bitlen) simp
  show "bitlen (numeral (Num.Bit1 n)) = bitlen (numeral n) + 1"
    by (subst compute_bitlen) simp
qed

lemmas round_eval = fround_def rd_def quantum_def binary32_def binary64_def ilog2_def
  bitlen_numeral_simps rne_def pow2_def Let_def zero_of_def inf_of_def

lemmas arith_eval = fadd_def fsub_def fmul_def fdiv_def fle_def flt_def round_eval

section \<open>Rounding is monotone\<close>

lemma pow2_powi: "pow2 e = 2 powi e"
  by (simp add: pow2_def power_int_def inverse_eq_divide power_one_over)

lemma pow2_pos [simp]: "0 < pow2 e"
  by (simp add: pow2_powi)

lemma pow2_add: "pow2 (a + b) = pow2 a * pow2 b"
  by (simp add: pow2_powi power_int_add)

lemma pow2_mono: "a \<le> b \<Longrightarrow> pow2 a \<le> pow2 b"
  by (simp add: pow2_powi power_int_increasing)

lemma pow2_less: "a < b \<Longrightarrow> pow2 a < pow2 b"
  by (simp add: pow2_powi power_int_strict_increasing)

lemma pow2_nat: "0 \<le> e \<Longrightarrow> pow2 e = of_int (2 ^ nat e)"
  by (simp add: pow2_def)

lemma rne_of_int [simp]: "rne (of_int n) = n"
  by (simp add: rne_def)

lemma rne_bounds: "\<lfloor>x\<rfloor> \<le> rne x \<and> rne x \<le> \<lfloor>x\<rfloor> + 1"
  by (simp add: rne_def Let_def)

lemma rne_mono:
  assumes "x \<le> y"
  shows "rne x \<le> rne y"
proof (cases "\<lfloor>x\<rfloor> < \<lfloor>y\<rfloor>")
  case True
  then show ?thesis using rne_bounds[of x] rne_bounds[of y] by linarith
next
  case False
  with floor_mono[OF assms] have "\<lfloor>x\<rfloor> = \<lfloor>y\<rfloor>" by linarith
  then show ?thesis using assms by (auto simp: rne_def Let_def)
qed

lemma ilog2_bounds:
  assumes "0 < x"
  shows "pow2 (ilog2 x) \<le> x \<and> x < pow2 (ilog2 x + 1)"
proof (cases "1 \<le> x")
  case True
  define n where "n = \<lfloor>x\<rfloor>"
  have n1: "1 \<le> n" using True by (simp add: n_def le_floor_iff)
  then have npos: "0 < n" by simp
  have k1: "1 \<le> bitlen n" using npos bitlen_nonneg[of n] bitlen_eq_zero_iff[of n] by linarith
  from bitlen_bounds[OF npos]
  have lo: "2 ^ nat (bitlen n - 1) \<le> n" and hi: "n < 2 ^ nat (bitlen n)" by simp_all
  have il: "ilog2 x = bitlen n - 1" using True by (simp add: ilog2_def n_def)
  have "pow2 (ilog2 x) = of_int (2 ^ nat (bitlen n - 1))"
    using k1 by (simp add: il pow2_nat)
  also have "\<dots> \<le> of_int n" using lo by (simp only: of_int_le_iff)
  also have "\<dots> \<le> x" by (simp add: n_def)
  finally have A: "pow2 (ilog2 x) \<le> x" .
  have "n + 1 \<le> 2 ^ nat (bitlen n)" using hi by simp
  then have "(of_int (n + 1) :: rat) \<le> of_int (2 ^ nat (bitlen n))"
    by (simp only: of_int_le_iff)
  moreover have "x < of_int (n + 1)" using floor_correct[of x] by (simp add: n_def)
  moreover have "pow2 (ilog2 x + 1) = of_int (2 ^ nat (bitlen n))"
    using k1 by (simp add: il pow2_nat)
  ultimately have B: "x < pow2 (ilog2 x + 1)" by simp
  from A B show ?thesis ..
next
  case False
  then have x1: "x < 1" by simp
  define y where "y = 1 / x"
  have y1: "1 < y" using assms x1 by (simp add: y_def)
  define m where "m = \<lceil>y\<rceil> - 1"
  have my: "of_int m < y" using ceiling_correct[of y] by (simp add: m_def)
  have ym: "y \<le> of_int m + 1" using ceiling_correct[of y] by (simp add: m_def)
  have m1: "1 \<le> m" using y1 by (simp add: m_def less_ceiling_iff)
  then have mpos: "0 < m" by simp
  define k where "k = bitlen m"
  have k1: "1 \<le> k" using mpos bitlen_nonneg[of m] bitlen_eq_zero_iff[of m] unfolding k_def by linarith
  from bitlen_bounds[OF mpos]
  have lo: "2 ^ nat (k - 1) \<le> m" and hi: "m < 2 ^ nat k" by (simp_all add: k_def)
  have il: "ilog2 x = - k" using False by (simp add: ilog2_def k_def m_def y_def)
  have "m + 1 \<le> 2 ^ nat k" using hi by simp
  then have "(of_int (m + 1) :: rat) \<le> of_int (2 ^ nat k)" by (simp only: of_int_le_iff)
  moreover have "(of_int (2 ^ nat k) :: rat) = 2 ^ nat k" by simp
  ultimately have yk: "y \<le> 2 ^ nat k" using ym by linarith
  have "(of_int (2 ^ nat (k - 1)) :: rat) \<le> of_int m" using lo by (simp only: of_int_le_iff)
  moreover have "(of_int (2 ^ nat (k - 1)) :: rat) = 2 ^ nat (k - 1)" by simp
  ultimately have ky: "2 ^ nat (k - 1) < y" using my by linarith
  have p1: "pow2 (- k) = 1 / 2 ^ nat k" using k1 by (simp add: pow2_def)
  have p2: "pow2 (- k + 1) = 1 / 2 ^ nat (k - 1)"
  proof (cases "k = 1")
    case True then show ?thesis by (simp add: pow2_def)
  next
    case False
    with k1 have "- k + 1 < 0" by simp
    then show ?thesis by (simp add: pow2_def)
  qed
  have A: "pow2 (ilog2 x) \<le> x"
    using yk assms unfolding il p1 y_def by (simp add: field_simps)
  have B: "x < pow2 (ilog2 x + 1)"
    using ky assms unfolding il p2 y_def by (simp add: field_simps)
  from A B show ?thesis ..
qed

lemma ilog2_unique:
  assumes "pow2 e \<le> x" and "x < pow2 (e + 1)"
  shows "ilog2 x = e"
proof -
  have xpos: "0 < x" using assms(1) pow2_pos[of e] by linarith
  from ilog2_bounds[OF xpos] have b: "pow2 (ilog2 x) \<le> x" "x < pow2 (ilog2 x + 1)" by simp_all
  have "\<not> ilog2 x < e"
  proof
    assume "ilog2 x < e"
    then have "pow2 (ilog2 x + 1) \<le> pow2 e" by (intro pow2_mono) simp
    with b(2) assms(1) show False by linarith
  qed
  moreover have "\<not> e < ilog2 x"
  proof
    assume "e < ilog2 x"
    then have "pow2 (e + 1) \<le> pow2 (ilog2 x)" by (intro pow2_mono) simp
    with b(1) assms(2) show False by linarith
  qed
  ultimately show ?thesis by linarith
qed

lemma ilog2_mono:
  assumes "0 < x" and "x \<le> y"
  shows "ilog2 x \<le> ilog2 y"
proof (rule ccontr)
  assume "\<not> ilog2 x \<le> ilog2 y"
  then have "ilog2 y + 1 \<le> ilog2 x" by simp
  then have "pow2 (ilog2 y + 1) \<le> pow2 (ilog2 x)" by (rule pow2_mono)
  moreover have "0 < y" using assms by linarith
  ultimately show False using ilog2_bounds[OF assms(1)] ilog2_bounds[OF \<open>0 < y\<close>] assms(2)
    by linarith
qed

lemma pow2_diff: "pow2 a / pow2 b = pow2 (a - b)"
  by (simp add: pow2_powi power_int_diff)

lemma pow2_nonneg [simp]: "0 \<le> pow2 e"
  using pow2_pos[of e] by linarith

lemma rne_scale_le:
  assumes "x \<le> pow2 t" and "g \<le> t"
  shows "of_int (rne (x / pow2 g)) * pow2 g \<le> pow2 t"
proof -
  have "x / pow2 g \<le> pow2 t / pow2 g" using assms(1) by (rule divide_right_mono) simp
  also have "\<dots> = of_int (2 ^ nat (t - g))" using assms(2) by (simp add: pow2_diff pow2_nat)
  finally have "rne (x / pow2 g) \<le> rne (of_int (2 ^ nat (t - g)))" by (rule rne_mono)
  then have "rne (x / pow2 g) \<le> 2 ^ nat (t - g)" by (simp only: rne_of_int)
  then have "(of_int (rne (x / pow2 g)) :: rat) \<le> of_int (2 ^ nat (t - g))"
    by (simp only: of_int_le_iff)
  then have "of_int (rne (x / pow2 g)) * pow2 g \<le> of_int (2 ^ nat (t - g)) * pow2 g"
    by (rule mult_right_mono) simp
  also have "of_int (2 ^ nat (t - g)) * pow2 g = pow2 (t - g) * pow2 g"
    using assms(2) by (simp add: pow2_nat)
  also have "\<dots> = pow2 t" by (simp flip: pow2_add)
  finally show ?thesis .
qed

lemma rne_scale_ge:
  assumes "pow2 t \<le> x" and "g \<le> t"
  shows "pow2 t \<le> of_int (rne (x / pow2 g)) * pow2 g"
proof -
  have "pow2 t / pow2 g \<le> x / pow2 g" using assms(1) by (rule divide_right_mono) simp
  moreover have "pow2 t / pow2 g = of_int (2 ^ nat (t - g))"
    using assms(2) by (simp add: pow2_diff pow2_nat)
  ultimately have "of_int (2 ^ nat (t - g)) \<le> x / pow2 g" by simp
  then have "rne (of_int (2 ^ nat (t - g))) \<le> rne (x / pow2 g)" by (rule rne_mono)
  then have "2 ^ nat (t - g) \<le> rne (x / pow2 g)" by (simp only: rne_of_int)
  then have "(of_int (2 ^ nat (t - g)) :: rat) \<le> of_int (rne (x / pow2 g))"
    by (simp only: of_int_le_iff)
  then have le: "of_int (2 ^ nat (t - g)) * pow2 g \<le> of_int (rne (x / pow2 g)) * pow2 g"
    by (rule mult_right_mono) simp
  have "pow2 t = pow2 (t - g) * pow2 g" by (simp flip: pow2_add)
  also have "\<dots> = of_int (2 ^ nat (t - g)) * pow2 g"
    using assms(2) by (simp add: pow2_nat)
  also note le
  finally show ?thesis .
qed

lemma rd_nonneg: "0 \<le> x \<Longrightarrow> 0 \<le> rd f x"
proof -
  assume "0 \<le> x"
  then have "0 \<le> x / quantum f x" by (intro divide_nonneg_nonneg) (simp_all add: quantum_def)
  then have "rne 0 \<le> rne (x / quantum f x)" by (rule rne_mono)
  moreover have "rne 0 = 0" using rne_of_int[of 0] by simp
  ultimately show ?thesis by (simp add: rd_def quantum_def)
qed

lemma rd_mono_pos:
  assumes p: "0 < prec f" and x: "0 < x" and xy: "x \<le> y"
  shows "rd f x \<le> rd f y"
proof -
  have y: "0 < y" using x xy by linarith
  define ex where "ex = max (ilog2 x) (1 - emax f)"
  define ey where "ey = max (ilog2 y) (1 - emax f)"
  have exy: "ex \<le> ey" using ilog2_mono[OF x xy] by (simp add: ex_def ey_def)
  have qx: "quantum f x = pow2 (ex - int (prec f) + 1)" using x by (simp add: quantum_def ex_def)
  have qy: "quantum f y = pow2 (ey - int (prec f) + 1)" using y by (simp add: quantum_def ey_def)
  show ?thesis
  proof (cases "ex = ey")
    case True
    have "x / pow2 (ex - int (prec f) + 1) \<le> y / pow2 (ex - int (prec f) + 1)"
      using xy by (rule divide_right_mono) simp
    then have "rne (x / pow2 (ex - int (prec f) + 1)) \<le> rne (y / pow2 (ex - int (prec f) + 1))"
      by (rule rne_mono)
    then have "(of_int (rne (x / pow2 (ex - int (prec f) + 1))) :: rat)
                 \<le> of_int (rne (y / pow2 (ex - int (prec f) + 1)))"
      by (simp only: of_int_le_iff)
    then show ?thesis unfolding rd_def qx qy True[symmetric] by (rule mult_right_mono) simp
  next
    case False
    with exy have lt: "ex + 1 \<le> ey" by simp
    then have eyl: "ey = ilog2 y" by (simp add: ey_def ex_def max_def split: if_splits)
    have "x < pow2 (ilog2 x + 1)" using ilog2_bounds[OF x] by simp
    also have "\<dots> \<le> pow2 (ex + 1)" by (rule pow2_mono) (simp add: ex_def)
    finally have "x \<le> pow2 (ex + 1)" by simp
    then have "rd f x \<le> pow2 (ex + 1)"
      unfolding rd_def qx by (rule rne_scale_le) simp
    also have "\<dots> \<le> pow2 ey" using lt by (rule pow2_mono)
    also have "\<dots> \<le> rd f y"
      unfolding rd_def qy
    proof (rule rne_scale_ge)
      show "pow2 ey \<le> y" using ilog2_bounds[OF y] by (simp add: eyl)
      show "ey - int (prec f) + 1 \<le> ey" using p by simp
    qed
    finally show ?thesis .
  qed
qed

lemma rd_zero [simp]: "rd f 0 = 0"
  using rne_of_int[of 0] by (simp add: rd_def)

lemma rd_mono_nonneg:
  assumes "0 < prec f" and "0 \<le> x" and "x \<le> y"
  shows "rd f x \<le> rd f y"
proof (cases "x = 0")
  case True
  then show ?thesis using rd_nonneg[of y f] assms by simp
next
  case False
  with assms have "0 < x" by simp
  then show ?thesis using assms by (intro rd_mono_pos)
qed

lemma fround_mono_nonneg:
  assumes p: "0 < prec f" and x: "0 \<le> x" and xy: "x \<le> y"
  shows "fle (fround f s x) (fround f s' y)"
proof -
  have y: "0 \<le> y" using x xy by linarith
  have r: "rd f x \<le> rd f y" using assms by (rule rd_mono_nonneg)
  have rx: "0 \<le> rd f x" using x by (rule rd_nonneg)
  have ry: "0 \<le> rd f y" using y by (rule rd_nonneg)
  show ?thesis
    using r rx ry x y xy
    by (auto simp: fround_def fle_def Let_def zero_of_def inf_of_def)
qed

lemma fround_range:
  assumes p: "0 < prec f" and x: "0 \<le> x" and xb: "x \<le> b" and B: "fround f s' b = Fin B"
  shows "isfinite (fround f s x) \<and> 0 \<le> valof (fround f s x) \<and> valof (fround f s x) \<le> B"
proof -
  have lo: "fle (fround f s 0) (fround f s x)" using p _ x by (rule fround_mono_nonneg) simp
  have hi: "fle (fround f s x) (Fin B)" using fround_mono_nonneg[OF p x xb, of s s'] B by simp
  show ?thesis
    using lo hi by (cases "fround f s x") (auto simp: fle_def fround_def zero_of_def split: if_splits)
qed

section \<open>The coefficients\<close>

lemma flt_not_fle: "flt (Fin 0) x \<Longrightarrow> \<not> fle x (Fin 0)"
  by (cases x) (auto simp: flt_def fle_def)

text \<open>
  Claim C1. With a gain and an integral time above zero, \<^verbatim>\<open>recalculateCoefficients\<close>
  stores \<open>b0 = Kp * (1 + Tm / (2 * Ti))\<close> and \<open>b1 = - Kp * (1 - Tm / (2 * Ti))\<close>, each
  operation being the \<^verbatim>\<open>float\<close> operation of the source; the two coefficients depend
  on nothing but the gain and the integral time, so equal inputs give equal coefficients.
\<close>

theorem recalculateCoefficients_tustin:
  assumes "flt (Fin 0) (Kp s)" and "flt (Fin 0) (Ti s)"
  shows "Kpos (recalculateCoefficients s) =
           fmul (Kp s) (fadd (Fin 1) (fdiv Tm (fmul (Fin 2) (Ti s)))) \<and>
         Kneg (recalculateCoefficients s) =
           fmul (fneg (Kp s)) (fsub (Fin 1) (fdiv Tm (fmul (Fin 2) (Ti s)))) \<and>
         (\<forall>s'. Kp s' = Kp s \<and> Ti s' = Ti s \<longrightarrow>
            Kpos (recalculateCoefficients s') = Kpos (recalculateCoefficients s) \<and>
            Kneg (recalculateCoefficients s') = Kneg (recalculateCoefficients s))"
  using assms by (simp add: recalculateCoefficients_def emit_def Let_def flt_not_fle)

text \<open>At the compiled-in gain 5 and integral time 250 the coefficients are the binary32
  numbers 5.00999975... and -4.99000024...\<close>

theorem recalculateCoefficients_tustin_witness:
  "flt (Fin 0) (Kp globals) \<and> flt (Fin 0) (Ti globals) \<and>
   Kpos (recalculateCoefficients globals) = Fin (10506731 / 2097152) \<and>
   Kneg (recalculateCoefficients globals) = Fin (- (10464789 / 2097152))"
proof -
  have kp: "flt (Fin 0) (Kp globals)" by (simp add: globals_def flt_def)
  have ti: "flt (Fin 0) (Ti globals)" by (simp add: globals_def flt_def)
  have b0: "fmul (Kp globals) (fadd (Fin 1) (fdiv Tm (fmul (Fin 2) (Ti globals)))) =
              Fin (10506731 / 2097152)"
    by (simp add: globals_def Tm_def arith_eval)
  have b1: "fmul (fneg (Kp globals)) (fsub (Fin 1) (fdiv Tm (fmul (Fin 2) (Ti globals)))) =
              Fin (- (10464789 / 2097152))"
    by (simp add: globals_def Tm_def arith_eval)
  from recalculateCoefficients_tustin[OF kp ti] kp ti b0 b1 show ?thesis by simp
qed

text \<open>
  Claim C4. With a gain or an integral time that is not above zero,
  \<^verbatim>\<open>recalculateCoefficients\<close> returns with the state as it was but for one line on the
  serial port: neither coefficient is written.
\<close>

theorem recalculateCoefficients_rejects:
  assumes "fle (Kp s) (Fin 0) \<or> fle (Ti s) (Fin 0)"
  shows "recalculateCoefficients s = s\<lparr>effects := effects s @ [Serial_PI_Error]\<rparr> \<and>
         Kpos (recalculateCoefficients s) = Kpos s \<and>
         Kneg (recalculateCoefficients s) = Kneg s"
  using assms by (auto simp: recalculateCoefficients_def emit_def)

theorem recalculateCoefficients_rejects_witness:
  "fle (Kp (defaults\<lparr>Kp := Fin (- 1)\<rparr>)) (Fin 0) \<and>
   Kpos (recalculateCoefficients (defaults\<lparr>Kp := Fin (- 1)\<rparr>)) = Kpos defaults \<and>
   Kneg (recalculateCoefficients (defaults\<lparr>Kp := Fin (- 1)\<rparr>)) = Kneg defaults \<and>
   effects (recalculateCoefficients (defaults\<lparr>Kp := Fin (- 1)\<rparr>)) =
     effects defaults @ [Serial_PI_Error]"
proof -
  have h: "fle (Kp (defaults\<lparr>Kp := Fin (- 1)\<rparr>)) (Fin 0)" by (simp add: fle_def)
  from recalculateCoefficients_rejects[of "defaults\<lparr>Kp := Fin (- 1)\<rparr>"] h
  show ?thesis by simp
qed

section \<open>The actuator mapping\<close>

lemma prec32 [simp]: "0 < prec binary32"
  by (simp add: binary32_def)

lemma fround32_1 [simp]: "fround binary32 s 1 = Fin 1"
  by (simp add: round_eval)

lemma fround32_180 [simp]: "fround binary32 s 180 = Fin 180"
  by (simp add: round_eval)

lemma fdiv_100: "isfinite c \<Longrightarrow> fdiv c (Fin 100) = fround binary32 (sign c) (valof c / 100)"
  by (cases c) (simp_all add: fdiv_def)

lemma fmul_180: "isfinite d \<Longrightarrow> fmul d (Fin 180) = fround binary32 (sign d) (valof d * 180)"
  by (cases d) (simp_all add: fmul_def)

lemma fadd_0: "isfinite m \<Longrightarrow> fadd (Fin 0) m = fround binary32 False (valof m)"
  by (cases m) (simp_all add: fadd_def)

lemma servo_span [simp]: "fsub (Fin 180) (Fin 0) = Fin 180"
  by (simp add: fsub_def fadd_def)

lemma flt_consts [simp]:
  "\<not> flt (Fin 0) (Fin 0)" "\<not> flt (Fin 100) (Fin 0)" "\<not> flt (Fin 100) (Fin 100)"
  "\<not> flt (Fin 100) (Fin 0)"
  by (simp_all add: flt_def)

text \<open>The linear map of scaleToDegrees on a value already inside 0..100.\<close>

lemma linear_map_range:
  assumes "isfinite c" and "0 \<le> valof c" and "valof c \<le> 100"
  shows "isfinite (fadd (Fin 0) (fmul (fdiv c (Fin 100)) (Fin 180))) \<and>
         0 \<le> valof (fadd (Fin 0) (fmul (fdiv c (Fin 100)) (Fin 180))) \<and>
         valof (fadd (Fin 0) (fmul (fdiv c (Fin 100)) (Fin 180))) \<le> 180"
proof -
  define d where "d = fdiv c (Fin 100)"
  have d: "isfinite d \<and> 0 \<le> valof d \<and> valof d \<le> 1"
    unfolding d_def fdiv_100[OF assms(1)]
    by (rule fround_range[where b = 1 and s' = False]) (use assms in simp_all)
  define m where "m = fmul d (Fin 180)"
  have m: "isfinite m \<and> 0 \<le> valof m \<and> valof m \<le> 180"
    unfolding m_def using d
    by (simp only: fmul_180) (rule fround_range[where b = 180 and s' = False], simp_all)
  have "isfinite (fadd (Fin 0) m) \<and> 0 \<le> valof (fadd (Fin 0) m) \<and> valof (fadd (Fin 0) m) \<le> 180"
    using m
    by (simp only: fadd_0) (rule fround_range[where b = 180 and s' = False], simp_all)
  then show ?thesis by (simp add: m_def d_def)
qed

lemma linear_map_mono:
  assumes "isfinite c1" and "0 \<le> valof c1" and "valof c1 \<le> valof c2"
    and "isfinite c2" and "valof c2 \<le> 100"
  shows "fle (fadd (Fin 0) (fmul (fdiv c1 (Fin 100)) (Fin 180)))
             (fadd (Fin 0) (fmul (fdiv c2 (Fin 100)) (Fin 180)))"
proof -
  have c1: "valof c1 \<le> 100" and c2: "0 \<le> valof c2" using assms by linarith+
  define d1 where "d1 = fdiv c1 (Fin 100)"
  define d2 where "d2 = fdiv c2 (Fin 100)"
  have r1: "isfinite d1 \<and> 0 \<le> valof d1 \<and> valof d1 \<le> 1"
    unfolding d1_def fdiv_100[OF assms(1)]
    by (rule fround_range[where b = 1 and s' = False]) (use assms c1 in simp_all)
  have r2: "isfinite d2 \<and> 0 \<le> valof d2 \<and> valof d2 \<le> 1"
    unfolding d2_def fdiv_100[OF assms(4)]
    by (rule fround_range[where b = 1 and s' = False]) (use assms c2 in simp_all)
  have "fle d1 d2"
    unfolding d1_def d2_def fdiv_100[OF assms(1)] fdiv_100[OF assms(4)]
    by (rule fround_mono_nonneg) (use assms in \<open>simp_all add: divide_right_mono\<close>)
  with r1 r2 have d12: "valof d1 \<le> valof d2"
    by (cases d1; cases d2) (simp_all add: fle_def)
  define m1 where "m1 = fmul d1 (Fin 180)"
  define m2 where "m2 = fmul d2 (Fin 180)"
  have q1: "isfinite m1 \<and> 0 \<le> valof m1 \<and> valof m1 \<le> 180"
    unfolding m1_def using r1
    by (simp only: fmul_180) (rule fround_range[where b = 180 and s' = False], simp_all)
  have q2: "isfinite m2 \<and> 0 \<le> valof m2 \<and> valof m2 \<le> 180"
    unfolding m2_def using r2
    by (simp only: fmul_180) (rule fround_range[where b = 180 and s' = False], simp_all)
  have "fle m1 m2"
    unfolding m1_def m2_def using r1 r2 d12
    by (simp only: fmul_180) (rule fround_mono_nonneg, simp_all add: mult_right_mono)
  with q1 q2 have m12: "valof m1 \<le> valof m2"
    by (cases m1; cases m2) (simp_all add: fle_def)
  have "fle (fadd (Fin 0) m1) (fadd (Fin 0) m2)"
    using q1 q2 m12 by (simp only: fadd_0) (rule fround_mono_nonneg, simp_all)
  then show ?thesis by (simp add: m1_def m2_def d1_def d2_def)
qed

lemma scaleToDegrees_clamped:
  "scaleToDegrees u =
     (let c = (if flt u (Fin 0) then Fin 0 else if flt (Fin 100) u then Fin 100 else u)
      in fadd (Fin 0) (fmul (fdiv c (Fin 100)) (Fin 180)))"
  by (simp add: scaleToDegrees_def Let_def SERVO_DEG_MIN_def SERVO_DEG_MAX_def)

lemma clamp_range:
  assumes "\<not> is_nan u"
  shows "isfinite (if flt u (Fin 0) then Fin 0 else if flt (Fin 100) u then Fin 100 else u) \<and>
         0 \<le> valof (if flt u (Fin 0) then Fin 0 else if flt (Fin 100) u then Fin 100 else u) \<and>
         valof (if flt u (Fin 0) then Fin 0 else if flt (Fin 100) u then Fin 100 else u) \<le> 100"
  using assms by (cases u) (auto simp: flt_def)

lemma clamp_mono:
  assumes "fle u1 u2"
  shows "valof (if flt u1 (Fin 0) then Fin 0 else if flt (Fin 100) u1 then Fin 100 else u1) \<le>
         valof (if flt u2 (Fin 0) then Fin 0 else if flt (Fin 100) u2 then Fin 100 else u2)"
  using assms by (cases u1; cases u2) (auto simp: flt_def fle_def)

lemma fle_not_nan: "fle a b \<Longrightarrow> \<not> is_nan a \<and> \<not> is_nan b"
  by (auto simp: fle_def split: if_splits)

text \<open>
  Claim C7. \<^verbatim>\<open>scaleToDegrees\<close> is non-decreasing: whenever \<open>u1 <= u2\<close> holds for two
  \<^verbatim>\<open>float\<close> arguments, \<open>scaleToDegrees u1 <= scaleToDegrees u2\<close>. An argument below 0 is
  treated as 0 and one above 100 as 100; 0 maps to \<^verbatim>\<open>SERVO_DEG_MIN\<close> and 100 to
  \<^verbatim>\<open>SERVO_DEG_MAX\<close> exactly, and every argument that is not a NaN maps into the range
  between them.
\<close>

theorem scaleToDegrees_monotone:
  "(\<forall>u1 u2. fle u1 u2 \<longrightarrow> fle (scaleToDegrees u1) (scaleToDegrees u2)) \<and>
   (\<forall>u. flt u (Fin 0) \<longrightarrow> scaleToDegrees u = scaleToDegrees (Fin 0)) \<and>
   (\<forall>u. flt (Fin 100) u \<longrightarrow> scaleToDegrees u = scaleToDegrees (Fin 100)) \<and>
   scaleToDegrees (Fin 0) = SERVO_DEG_MIN \<and>
   scaleToDegrees (Fin 100) = SERVO_DEG_MAX \<and>
   (\<forall>u. \<not> is_nan u \<longrightarrow> fle SERVO_DEG_MIN (scaleToDegrees u) \<and> fle (scaleToDegrees u) SERVO_DEG_MAX)"
proof (intro conjI allI impI)
  fix u1 u2 assume le: "fle u1 u2"
  from fle_not_nan[OF le] have n1: "\<not> is_nan u1" and n2: "\<not> is_nan u2" by simp_all
  show "fle (scaleToDegrees u1) (scaleToDegrees u2)"
    unfolding scaleToDegrees_clamped Let_def
    using clamp_range[OF n1] clamp_range[OF n2] clamp_mono[OF le]
    by (intro linear_map_mono) simp_all
next
  fix u assume "flt u (Fin 0)"
  then show "scaleToDegrees u = scaleToDegrees (Fin 0)"
    by (simp add: scaleToDegrees_clamped)
next
  fix u assume "flt (Fin 100) u"
  moreover from this have "\<not> flt u (Fin 0)" by (cases u) (auto simp: flt_def)
  ultimately show "scaleToDegrees u = scaleToDegrees (Fin 100)"
    by (simp add: scaleToDegrees_clamped)
next
  show "scaleToDegrees (Fin 0) = SERVO_DEG_MIN"
    by (simp add: scaleToDegrees_clamped SERVO_DEG_MIN_def arith_eval)
next
  show "scaleToDegrees (Fin 100) = SERVO_DEG_MAX"
    by (simp add: scaleToDegrees_clamped SERVO_DEG_MAX_def arith_eval)
next
  fix u assume n: "\<not> is_nan u"
  from linear_map_range[OF clamp_range[OF n, THEN conjunct1]] clamp_range[OF n]
  show "fle SERVO_DEG_MIN (scaleToDegrees u)"
    unfolding scaleToDegrees_clamped Let_def SERVO_DEG_MIN_def
    by (cases "fadd (Fin 0) (fmul (fdiv (if flt u (Fin 0) then Fin 0 else if flt (Fin 100) u then Fin 100 else u) (Fin 100)) (Fin 180))")
       (simp_all add: fle_def)
next
  fix u assume n: "\<not> is_nan u"
  from linear_map_range[OF clamp_range[OF n, THEN conjunct1]] clamp_range[OF n]
  show "fle (scaleToDegrees u) SERVO_DEG_MAX"
    unfolding scaleToDegrees_clamped Let_def SERVO_DEG_MAX_def
    by (cases "fadd (Fin 0) (fmul (fdiv (if flt u (Fin 0) then Fin 0 else if flt (Fin 100) u then Fin 100 else u) (Fin 100)) (Fin 180))")
       (simp_all add: fle_def)
qed

theorem scaleToDegrees_monotone_witness:
  "fle (Fin 30) (Fin 70) \<and> fle (scaleToDegrees (Fin 30)) (scaleToDegrees (Fin 70)) \<and>
   flt (Fin (- 5)) (Fin 0) \<and> scaleToDegrees (Fin (- 5)) = SERVO_DEG_MIN \<and>
   flt (Fin 100) PInf \<and> scaleToDegrees PInf = SERVO_DEG_MAX \<and>
   \<not> is_nan (Fin 70) \<and> fle (scaleToDegrees (Fin 70)) SERVO_DEG_MAX"
proof -
  have h1: "fle (Fin 30) (Fin 70)" by (simp add: fle_def)
  have h2: "flt (Fin (- 5)) (Fin 0)" by (simp add: flt_def)
  have h3: "flt (Fin 100) PInf" by (simp add: flt_def)
  have h4: "\<not> is_nan (Fin 70)" by simp
  from scaleToDegrees_monotone h1 h2 h3 h4 show ?thesis by metis
qed

section \<open>The control step\<close>

lemma clamp_idem:
  "\<not> flt (if flt r (Fin 0) then Fin 0 else if flt (Fin 100) r then Fin 100 else r) (Fin 0) \<and>
   \<not> flt (Fin 100) (if flt r (Fin 0) then Fin 0 else if flt (Fin 100) r then Fin 100 else r)"
  by (cases r) (auto simp: flt_def)

lemma clamp_seq:
  "(if flt (Fin 100) (if flt r (Fin 0) then Fin 0 else r) then Fin 100
    else (if flt r (Fin 0) then Fin 0 else r)) =
   (if flt r (Fin 0) then Fin 0 else if flt (Fin 100) r then Fin 100 else r)"
  by simp

lemma scaleToDegrees_in_servo_range:
  "\<not> flt (scaleToDegrees u) SERVO_DEG_MIN \<and> \<not> flt SERVO_DEG_MAX (scaleToDegrees u)"
proof (cases "is_nan u")
  case True
  then have "u = NaN" by (cases u) simp_all
  then show ?thesis
    by (simp add: scaleToDegrees_clamped flt_def fdiv_def fmul_def fadd_def)
next
  case False
  define c where "c = (if flt u (Fin 0) then Fin 0 else if flt (Fin 100) u then Fin 100 else u)"
  define d where "d = fadd (Fin 0) (fmul (fdiv c (Fin 100)) (Fin 180))"
  from clamp_range[OF False] have "isfinite c \<and> 0 \<le> valof c \<and> valof c \<le> 100" by (simp add: c_def)
  then have "isfinite d \<and> 0 \<le> valof d \<and> valof d \<le> 180"
    unfolding d_def by (intro linear_map_range) simp_all
  moreover have "scaleToDegrees u = d" by (simp add: scaleToDegrees_clamped c_def d_def)
  ultimately show ?thesis
    by (cases d) (simp_all add: flt_def SERVO_DEG_MIN_def SERVO_DEG_MAX_def)
qed

lemma pos_deg_applyControl:
  "pos_deg (applyControl s) = scaleToDegrees (u_logic (applyControl s))"
  using scaleToDegrees_in_servo_range
  by (simp add: applyControl_def setServoDegrees_def emit_def Let_def)

lemma applyControl_error_k_1:
  "error_k_1 (applyControl s) = fsub (temp_setpoint s) (temp_actual s)"
  by (simp add: applyControl_def setServoDegrees_def emit_def Let_def)

lemma applyControl_u_logic:
  "u_logic (applyControl s) =
     (let raw = fadd (fadd (u_logic s) (fmul (Kpos s) (fsub (temp_setpoint s) (temp_actual s))))
                  (fmul (Kneg s) (error_k_1 s))
      in if flt raw (Fin 0) then Fin 0 else if flt (Fin 100) raw then Fin 100 else raw)"
  by (simp add: applyControl_def setServoDegrees_def emit_def Let_def)

lemma applyControl_pos_deg:
  "pos_deg (applyControl s) =
     fadd (Fin 0) (fmul (fdiv (u_logic (applyControl s)) (Fin 100)) (Fin 180))"
  unfolding pos_deg_applyControl applyControl_u_logic Let_def
  using clamp_idem[of "fadd (fadd (u_logic s) (fmul (Kpos s) (fsub (temp_setpoint s) (temp_actual s))))
                 (fmul (Kneg s) (error_k_1 s))"]
  by (simp add: scaleToDegrees_def Let_def SERVO_DEG_MIN_def SERVO_DEG_MAX_def)

lemma applyControl_frame:
  "Kp (applyControl s) = Kp s" "Ti (applyControl s) = Ti s"
  "Kpos (applyControl s) = Kpos s" "Kneg (applyControl s) = Kneg s"
  "temp_setpoint (applyControl s) = temp_setpoint s" "temp_actual (applyControl s) = temp_actual s"
  "sampleIndex (applyControl s) = sampleIndex s"
  "initial_state_reset (applyControl s) = initial_state_reset s"
  by (simp_all add: applyControl_def setServoDegrees_def emit_def Let_def)

lemma Kpos_defaults: "Kpos defaults = Fin (10506731 / 2097152)"
  by (simp add: defaults_def setup_controller_def setServoDegrees_def
      recalculateCoefficients_def emit_def globals_def Tm_def Let_def fle_def fdiv_def fmul_def fadd_def round_eval)

lemma Kneg_defaults: "Kneg defaults = Fin (- (10464789 / 2097152))"
  by (simp add: defaults_def setup_controller_def setServoDegrees_def
      recalculateCoefficients_def emit_def globals_def Tm_def Let_def fle_def fdiv_def fmul_def fadd_def fsub_def round_eval)

text \<open>
  The equations of one call of \<^verbatim>\<open>applyControl\<close>, for every state: the error is
  \<open>SP - PV\<close>, the raw output \<open>u + b0 * e + b1 * e_prev\<close>; the new output is 0 when the raw
  output is below 0, 100 when it is above 100 and the raw output itself otherwise (also
  when it is a NaN); the position is
  \<open>SERVO_DEG_MIN + (u / 100) * (SERVO_DEG_MAX - SERVO_DEG_MIN)\<close>. In the scenario of the
  specification (setpoint 30, process variable 25, output 50, previous error 0), with the
  coefficients \<^verbatim>\<open>5.01f\<close> and \<^verbatim>\<open>-4.99f\<close> as well as with the coefficients the firmware
  computes from the gain 5 and the integral time 250, the new output is the binary32 number
  nearest to 75.05 and the position is 135.0900116, within 0.00002 of 135.09.
\<close>

theorem applyControl_step:
  "(\<forall>s. let e = fsub (temp_setpoint s) (temp_actual s);
            raw = fadd (fadd (u_logic s) (fmul (Kpos s) e)) (fmul (Kneg s) (error_k_1 s));
            u = (if flt raw (Fin 0) then Fin 0 else if flt (Fin 100) raw then Fin 100 else raw)
        in error_k_1 (applyControl s) = e \<and>
           u_logic (applyControl s) = u \<and>
           pos_deg (applyControl s) =
             fadd SERVO_DEG_MIN (fmul (fdiv u (Fin 100)) (fsub SERVO_DEG_MAX SERVO_DEG_MIN))) \<and>
   (\<forall>s. (Kpos s = fround binary32 False (501 / 100) \<and> Kneg s = fround binary32 True (- 499 / 100) \<or>
         Kpos s = Kpos defaults \<and> Kneg s = Kneg defaults) \<and>
        temp_setpoint s = Fin 30 \<and> temp_actual s = Fin 25 \<and>
        u_logic s = Fin 50 \<and> error_k_1 s = Fin 0 \<longrightarrow>
        u_logic (applyControl s) = Fin (4918477 / 65536) \<and>
        fround binary32 False (7505 / 100) = Fin (4918477 / 65536) \<and>
        pos_deg (applyControl s) = Fin (8853259 / 65536) \<and>
        \<bar>8853259 / 65536 - 13509 / 100\<bar> < (1 / 50000 :: rat))"
proof (intro conjI allI impI)
  fix s :: state
  show "let e = fsub (temp_setpoint s) (temp_actual s);
            raw = fadd (fadd (u_logic s) (fmul (Kpos s) e)) (fmul (Kneg s) (error_k_1 s));
            u = (if flt raw (Fin 0) then Fin 0 else if flt (Fin 100) raw then Fin 100 else raw)
        in error_k_1 (applyControl s) = e \<and>
           u_logic (applyControl s) = u \<and>
           pos_deg (applyControl s) =
             fadd SERVO_DEG_MIN (fmul (fdiv u (Fin 100)) (fsub SERVO_DEG_MAX SERVO_DEG_MIN))"
    unfolding Let_def applyControl_pos_deg applyControl_error_k_1
    by (simp add: applyControl_u_logic Let_def SERVO_DEG_MIN_def SERVO_DEG_MAX_def)
next
  fix s :: state
  assume h: "(Kpos s = fround binary32 False (501 / 100) \<and> Kneg s = fround binary32 True (- 499 / 100) \<or>
         Kpos s = Kpos defaults \<and> Kneg s = Kneg defaults) \<and>
        temp_setpoint s = Fin 30 \<and> temp_actual s = Fin 25 \<and>
        u_logic s = Fin 50 \<and> error_k_1 s = Fin 0"
  have k1: "fround binary32 False (501 / 100) = Fin (10506732 / 2097152)" by (simp add: round_eval)
  have k2: "fround binary32 True (- 499 / 100) = Fin (- (10464788 / 2097152))" by (simp add: round_eval)
  have e: "fsub (Fin 30) (Fin 25) = Fin 5" by (simp add: fsub_def fadd_def round_eval)
  have r1: "fadd (fadd (Fin 50) (fmul (Fin (10506732 / 2097152)) (Fin 5)))
              (fmul (Fin (- (10464788 / 2097152))) (Fin 0)) = Fin (4918477 / 65536)"
    by (simp add: fadd_def fmul_def round_eval)
  have r2: "fadd (fadd (Fin 50) (fmul (Fin (10506731 / 2097152)) (Fin 5)))
              (fmul (Fin (- (10464789 / 2097152))) (Fin 0)) = Fin (4918477 / 65536)"
    by (simp add: fadd_def fmul_def round_eval)
  have c: "\<not> flt (Fin (4918477 / 65536)) (Fin 0)" "\<not> flt (Fin 100) (Fin (4918477 / 65536))"
    by (simp_all add: flt_def)
  from h k1 k2 Kpos_defaults Kneg_defaults consider
      (lit) "Kpos s = Fin (10506732 / 2097152)" "Kneg s = Fin (- (10464788 / 2097152))"
    | (dfl) "Kpos s = Fin (10506731 / 2097152)" "Kneg s = Fin (- (10464789 / 2097152))"
    by auto
  then have "fadd (fadd (u_logic s) (fmul (Kpos s) (fsub (temp_setpoint s) (temp_actual s))))
                  (fmul (Kneg s) (error_k_1 s)) = Fin (4918477 / 65536)"
    using h e r1 r2 by cases simp_all
  then show u: "u_logic (applyControl s) = Fin (4918477 / 65536)"
    using c by (simp add: applyControl_u_logic)
  have "fadd (Fin 0) (fmul (fdiv (Fin (4918477 / 65536)) (Fin 100)) (Fin 180)) = Fin (8853259 / 65536)"
    by (simp add: fadd_def fmul_def fdiv_def round_eval)
  then show "pos_deg (applyControl s) = Fin (8853259 / 65536)"
    by (simp add: applyControl_pos_deg u)
  show "fround binary32 False (7505 / 100) = Fin (4918477 / 65536)" by (simp add: round_eval)
  show "\<bar>8853259 / 65536 - 13509 / 100\<bar> < (1 / 50000 :: rat)" by simp
qed

theorem applyControl_step_witness:
  "Kpos (defaults\<lparr>temp_setpoint := Fin 30, u_logic := Fin 50\<rparr>) = Kpos defaults \<and>
   temp_actual (defaults\<lparr>temp_setpoint := Fin 30, u_logic := Fin 50\<rparr>) = Fin 25 \<and>
   error_k_1 (defaults\<lparr>temp_setpoint := Fin 30, u_logic := Fin 50\<rparr>) = Fin 0 \<and>
   u_logic (applyControl (defaults\<lparr>temp_setpoint := Fin 30, u_logic := Fin 50\<rparr>)) =
     Fin (4918477 / 65536) \<and>
   pos_deg (applyControl (defaults\<lparr>temp_setpoint := Fin 30, u_logic := Fin 50\<rparr>)) =
     Fin (8853259 / 65536)"
proof -
  have pv: "temp_actual defaults = Fin 25" and e: "error_k_1 defaults = Fin 0"
    by (simp_all add: defaults_def setup_controller_def setServoDegrees_def
        recalculateCoefficients_def emit_def globals_def Let_def)
  from applyControl_step pv e show ?thesis by simp
qed

section \<open>Runs without a control step\<close>

lemma recalculateCoefficients_frame:
  "u_logic (recalculateCoefficients s) = u_logic s"
  "error_k_1 (recalculateCoefficients s) = error_k_1 s"
  "sampleIndex (recalculateCoefficients s) = sampleIndex s"
  "initial_state_reset (recalculateCoefficients s) = initial_state_reset s"
  "temp_setpoint (recalculateCoefficients s) = temp_setpoint s"
  "temp_actual (recalculateCoefficients s) = temp_actual s"
  by (simp_all add: recalculateCoefficients_def emit_def Let_def)

lemma mqttCallback_value_frame:
  "u_logic (mqttCallback_value topic v s) = u_logic s"
  "error_k_1 (mqttCallback_value topic v s) = error_k_1 s"
  "sampleIndex (mqttCallback_value topic v s) = sampleIndex s"
  "initial_state_reset (mqttCallback_value topic v s) = initial_state_reset s"
  by (simp_all add: mqttCallback_value_def recalculateCoefficients_frame emit_def)

lemma mqttCallback_frame:
  "u_logic (mqttCallback topic payload s) = u_logic s"
  "error_k_1 (mqttCallback topic payload s) = error_k_1 s"
  "sampleIndex (mqttCallback topic payload s) = sampleIndex s"
  "initial_state_reset (mqttCallback topic payload s) = initial_state_reset s"
  by (simp_all add: mqttCallback_def mqttCallback_value_frame Let_def emit_def)

lemma step_frame:
  assumes "i \<noteq> Period True"
  shows "u_logic (step s i) = u_logic s \<and> error_k_1 (step s i) = error_k_1 s \<and>
         sampleIndex (step s i) = sampleIndex s \<and>
         initial_state_reset (step s i) = initial_state_reset s"
  using assms by (cases i) (simp_all add: mqttCallback_frame control_task_def)

lemma run_Nil [simp]: "run [] s = s"
  by (simp add: run_def)

lemma run_Cons [simp]: "run (i # ins) s = run ins (step s i)"
  by (simp add: run_def)

lemma run_frame:
  assumes "\<forall>i \<in> set ins. i \<noteq> Period True"
  shows "u_logic (run ins s) = u_logic s \<and> error_k_1 (run ins s) = error_k_1 s \<and>
         sampleIndex (run ins s) = sampleIndex s \<and>
         initial_state_reset (run ins s) = initial_state_reset s"
  using assms
proof (induction ins arbitrary: s)
  case Nil
  then show ?case by simp
next
  case (Cons i ins)
  then have "i \<noteq> Period True" and "\<forall>j \<in> set ins. j \<noteq> Period True" by simp_all
  with Cons.IH[of "step s i"] step_frame[of i s] show ?case by simp
qed

lemma run_link_down: "run (replicate n (Period False)) s = s"
  by (induction n) (simp_all add: control_task_def)

text \<open>
  Claim C6. A turn of the control loop with the link down leaves the whole state as it
  was, over any number of such turns; and whatever arrives in between, as long as no
  turn runs with the link up, the output \<^verbatim>\<open>u_logic\<close>, the previous error
  \<^verbatim>\<open>error_k_1\<close> and \<^verbatim>\<open>sampleIndex\<close> stay as the last control step left them.
\<close>

theorem control_task_freeze:
  "control_task False s = s \<and>
   run (replicate n (Period False)) s = s \<and>
   (\<forall>ins. (\<forall>i \<in> set ins. i \<noteq> Period True) \<longrightarrow>
      u_logic (run ins s) = u_logic s \<and> error_k_1 (run ins s) = error_k_1 s \<and>
      sampleIndex (run ins s) = sampleIndex s)"
  using run_frame[of _ s] by (simp add: control_task_def run_link_down)

theorem control_task_freeze_witness:
  "list_all (\<lambda>i. i \<noteq> Period True) [Message MQTT_SUB_TOPIC_SP ''30'', Period False, Period False] \<and>
   u_logic (run [Message MQTT_SUB_TOPIC_SP ''30'', Period False, Period False] defaults) = u_logic defaults \<and>
   error_k_1 (run [Message MQTT_SUB_TOPIC_SP ''30'', Period False, Period False] defaults) = error_k_1 defaults \<and>
   sampleIndex (run [Message MQTT_SUB_TOPIC_SP ''30'', Period False, Period False] defaults) = sampleIndex defaults \<and>
   run (replicate 3 (Period False)) defaults = defaults"
proof -
  have h: "\<forall>i \<in> set [Message MQTT_SUB_TOPIC_SP ''30'', Period False, Period False]. i \<noteq> Period True"
    by simp
  have l: "list_all (\<lambda>i. i \<noteq> Period True) [Message MQTT_SUB_TOPIC_SP ''30'', Period False, Period False]"
    by simp
  note t = control_task_freeze[of defaults 3]
  from t have a: "run (replicate 3 (Period False)) defaults = defaults" by (elim conjE)
  from t h have b: "u_logic (run [Message MQTT_SUB_TOPIC_SP ''30'', Period False, Period False] defaults) = u_logic defaults \<and>
      error_k_1 (run [Message MQTT_SUB_TOPIC_SP ''30'', Period False, Period False] defaults) = error_k_1 defaults \<and>
      sampleIndex (run [Message MQTT_SUB_TOPIC_SP ''30'', Period False, Period False] defaults) = sampleIndex defaults"
    by (elim conjE allE impE) (assumption, intro conjI, assumption+)
  from a b l show ?thesis by (intro conjI) (elim conjE, assumption)+
qed

section \<open>The decoder: text payloads\<close>

lemma isAsciiNumber_Nil [simp]: "isAsciiNumber []"
  by (simp add: isAsciiNumber_def)

lemma trim_Nil [simp]: "trim [] = []"
  by (simp add: trim_def)

lemma fround_0 [simp]: "fround f s 0 = zero_of s"
  by (simp add: fround_def)

lemma toFloat_Nil [simp]: "toFloat [] = Fin 0"
  by (simp add: toFloat_def strtod_def zero_of_def)

lemma topics_distinct [simp]:
  "MQTT_SUB_TOPIC_SP \<noteq> MQTT_SUB_TOPIC_KP" "MQTT_SUB_TOPIC_SP \<noteq> MQTT_SUB_TOPIC_TI"
  "MQTT_SUB_TOPIC_PV \<noteq> MQTT_SUB_TOPIC_KP" "MQTT_SUB_TOPIC_PV \<noteq> MQTT_SUB_TOPIC_TI"
  "MQTT_SUB_TOPIC_PV \<noteq> MQTT_SUB_TOPIC_SP" "MQTT_SUB_TOPIC_TI \<noteq> MQTT_SUB_TOPIC_KP"
  by (simp_all add: MQTT_SUB_TOPIC_SP_def MQTT_SUB_TOPIC_KP_def MQTT_SUB_TOPIC_TI_def
      MQTT_SUB_TOPIC_PV_def)

lemma mqttCallback_value_SP:
  "isfinite v \<Longrightarrow> mqttCallback_value MQTT_SUB_TOPIC_SP v s = emit (Serial_New_SP v) (s\<lparr>temp_setpoint := v\<rparr>)"
  by (simp add: mqttCallback_value_def)

lemma mqttCallback_value_PV:
  "isfinite v \<Longrightarrow> mqttCallback_value MQTT_SUB_TOPIC_PV v s = emit (Serial_New_PV v) (s\<lparr>temp_actual := v\<rparr>)"
  by (simp add: mqttCallback_value_def)

lemma mqttCallback_value_invalid:
  "\<not> isfinite v \<Longrightarrow> mqttCallback_value topic v s = emit Serial_CB_Invalid s"
  by (simp add: mqttCallback_value_def)

lemma mqttCallback_text:
  "isAsciiNumber payload \<Longrightarrow>
   mqttCallback topic payload s =
     mqttCallback_value topic (toFloat (trim payload))
       (emit (Serial_CB_Ascii (trim payload) (toFloat (trim payload))) s)"
  by (simp add: mqttCallback_def Let_def)

text \<open>
  Claim C10. An empty payload passes the character test (the loop has nothing to test),
  the empty text converts to 0.0, which is finite: on the setpoint topic the message sets
  the setpoint to 0.0, on the process-variable topic the process variable; on the gain and
  the integral-time topics only the test \<^verbatim>\<open>value > 0.0f\<close> drops it.
\<close>

theorem mqttCallback_empty_payload:
  "isAsciiNumber [] \<and> toFloat (trim []) = Fin 0 \<and> isfinite (toFloat (trim [])) \<and>
   mqttCallback MQTT_SUB_TOPIC_SP [] s =
     s\<lparr>temp_setpoint := Fin 0,
       effects := effects s @ [Serial_CB_Ascii [] (Fin 0), Serial_New_SP (Fin 0)]\<rparr> \<and>
   mqttCallback MQTT_SUB_TOPIC_PV [] s =
     s\<lparr>temp_actual := Fin 0,
       effects := effects s @ [Serial_CB_Ascii [] (Fin 0), Serial_New_PV (Fin 0)]\<rparr> \<and>
   \<not> flt (Fin 0) (toFloat (trim [])) \<and>
   mqttCallback MQTT_SUB_TOPIC_KP [] s = s\<lparr>effects := effects s @ [Serial_CB_Ascii [] (Fin 0)]\<rparr> \<and>
   mqttCallback MQTT_SUB_TOPIC_TI [] s = s\<lparr>effects := effects s @ [Serial_CB_Ascii [] (Fin 0)]\<rparr>"
  by (simp add: mqttCallback_text mqttCallback_value_SP mqttCallback_value_PV emit_def flt_def
      mqttCallback_value_def)

theorem mqttCallback_empty_payload_witness:
  "temp_setpoint defaults = Fin 25 \<and>
   temp_setpoint (mqttCallback MQTT_SUB_TOPIC_SP [] defaults) = Fin 0 \<and>
   temp_actual defaults = Fin 25 \<and>
   temp_actual (mqttCallback MQTT_SUB_TOPIC_PV [] defaults) = Fin 0 \<and>
   Kp (mqttCallback MQTT_SUB_TOPIC_KP [] defaults) = Kp defaults \<and>
   Ti (mqttCallback MQTT_SUB_TOPIC_TI [] defaults) = Ti defaults"
proof -
  have d: "temp_setpoint defaults = Fin 25" "temp_actual defaults = Fin 25"
    by (simp_all add: defaults_def setup_controller_def setServoDegrees_def
        recalculateCoefficients_def emit_def globals_def Let_def)
  from mqttCallback_empty_payload[of defaults] d show ?thesis by simp
qed

section \<open>The decoder: text that is not a number\<close>

lemmas text_eval = toFloat_def strtod_def trim_def isspace_def isDigit_def digits_val_def
  digit_val_def pow10_def tolower_def isxdigit_def xdigit_val_def xdigits_val_def

lemma defaults_signals: "temp_setpoint defaults = Fin 25" "temp_actual defaults = Fin 25"
  by (simp_all add: defaults_def setup_controller_def setServoDegrees_def
      recalculateCoefficients_def emit_def globals_def Let_def)

lemma takeWhile_none: "\<forall>c \<in> set cs. \<not> P c \<Longrightarrow> takeWhile P cs = []"
  by (cases cs) simp_all

lemma set_scan_sign: "set (snd (scan_sign cs)) \<subseteq> set cs"
  by (cases cs) auto

lemma numeric_char_not_letter:
  assumes "numeric_char c"
  shows "tolower c \<noteq> CHR ''i'' \<and> tolower c \<noteq> CHR ''n''"
proof -
  from assms consider "isDigit c" | "c = CHR ''.''" | "c = CHR ''-''" | "c = CHR ''+''"
    | "c = CHR ''e''" | "c = CHR ''E''" | "c = CHR '' ''"
    by (auto simp: numeric_char_def)
  then show ?thesis
  proof cases
    case 1
    then have "(of_char c :: int) \<le> 57" by (simp add: isDigit_def Let_def)
    then show ?thesis by (auto simp: tolower_def Let_def)
  qed (simp_all add: tolower_def char_of_def)
qed

lemma strtod_no_digit:
  assumes cls: "list_all numeric_char str" and nod: "\<not> list_ex isDigit str"
  shows "strtod str = Fin 0"
proof -
  define r where "r = snd (scan_sign (dropWhile isspace str))"
  have sub: "set r \<subseteq> set str"
    unfolding r_def using set_scan_sign[of "dropWhile isspace str"] set_dropWhileD[of _ isspace str]
    by blast
  have nd: "\<forall>c \<in> set r. \<not> isDigit c" using sub nod by (auto simp: list_ex_iff)
  then have ip: "takeWhile isDigit r = []" by (rule takeWhile_none)
  have r1: "dropWhile isDigit r = r" using ip by (metis takeWhile_dropWhile_id append_Nil)
  have fr: "(case r of [] \<Rightarrow> [] | c # cs \<Rightarrow> if c = CHR ''.'' then takeWhile isDigit cs else []) = []"
  proof (cases r)
    case Nil then show ?thesis by simp
  next
    case (Cons c cs)
    with nd have "\<forall>c \<in> set cs. \<not> isDigit c" by simp
    then have "takeWhile isDigit cs = []" by (rule takeWhile_none)
    with Cons show ?thesis by simp
  qed
  have special: "map tolower (take 3 r) \<noteq> ''inf'' \<and> map tolower (take 3 r) \<noteq> ''nan''"
  proof (cases r)
    case Nil then show ?thesis by simp
  next
    case (Cons c cs)
    with sub cls have "numeric_char c" by (auto simp: list_all_iff)
    from numeric_char_not_letter[OF this] Cons show ?thesis by auto
  qed
  have hex: "strtod_hex neg r = None" for neg
  proof (cases "(neg, r)" rule: strtod_hex.cases)
    case (1 n c0 cx h)
    with nd have "\<not> isDigit c0" by simp
    then have "c0 \<noteq> CHR ''0''" by (auto simp: isDigit_def)
    with 1 show ?thesis by simp
  qed simp_all
  show ?thesis
    unfolding strtod_def
    by (simp add: case_prod_beta Let_def hex ip r1 fr special flip: r_def)
qed

lemma toFloat_no_digit:
  assumes "list_all numeric_char payload" and "\<not> list_ex isDigit payload"
  shows "toFloat (trim payload) = Fin 0"
proof -
  have sub: "set (trim payload) \<subseteq> set payload"
    unfolding trim_def using set_dropWhileD[of _ isspace "rev (dropWhile isspace payload)"]
      set_dropWhileD[of _ isspace payload] by auto
  have "list_all numeric_char (trim payload)" using assms(1) sub by (auto simp: list_all_iff)
  moreover have "\<not> list_ex isDigit (trim payload)" using assms(2) sub by (auto simp: list_ex_iff)
  ultimately have "strtod (trim payload) = Fin 0" by (rule strtod_no_digit)
  then show ?thesis by (simp add: toFloat_def zero_of_def)
qed

text \<open>
  Claim C8, as stated, fails: the payload \<^verbatim>\<open>--\<close> lies in the character class and is
  not a number, yet \<^verbatim>\<open>toFloat\<close> returns 0.0 for it, not a NaN, and on the setpoint topic
  the message replaces the setpoint 25 by 0.
\<close>

theorem mqttCallback_invalid_text_accepted:
  "isAsciiNumber ''--'' \<and> \<not> list_ex isDigit ''--'' \<and> toFloat (trim ''--'') = Fin 0 \<and>
   temp_setpoint defaults = Fin 25 \<and>
   temp_setpoint (mqttCallback MQTT_SUB_TOPIC_SP ''--'' defaults) = Fin 0"
proof -
  have a: "isAsciiNumber ''--''" by (simp add: isAsciiNumber_def numeric_char_def)
  have b: "\<not> list_ex isDigit ''--''" by (simp add: isDigit_def)
  have c: "toFloat (trim ''--'') = Fin 0" by (simp add: text_eval round_eval)
  have d: "temp_setpoint (mqttCallback MQTT_SUB_TOPIC_SP ''--'' defaults) = Fin 0"
    by (simp add: mqttCallback_text[OF a] c mqttCallback_value_SP emit_def)
  from a b c d defaults_signals(1) show ?thesis by simp
qed

lemma isAsciiNumber_first_64:
  "length pre = 64 \<Longrightarrow> isAsciiNumber (pre @ rest) = list_all numeric_char pre"
  by (simp add: isAsciiNumber_def)

lemma isAsciiNumber_short:
  "length payload \<le> 64 \<Longrightarrow> isAsciiNumber payload = list_all numeric_char payload"
  by (simp add: isAsciiNumber_def)

lemma trim_leading_spaces: "trim (replicate n CHR '' '' @ str) = trim str"
proof -
  have "dropWhile isspace (replicate n CHR '' '' @ str) = dropWhile isspace str"
    by (rule dropWhile_append2) (simp add: isspace_def)
  then show ?thesis by (simp add: trim_def)
qed

text \<open>
  Claim C8, amended. A payload whose first 64 bytes (or fewer) all lie in the character
  class is decoded as text, whatever follows the 64th byte: the value is what \<^verbatim>\<open>atof\<close>
  returns for the trimmed text, whether or not the text is a number. The message is
  rejected, with no variable written and two lines on the serial port, when that value
  is a NaN or an infinity; a finite value passes the test and is handed on, and on the
  setpoint and process-variable topics it replaces the variable. When every byte of the
  payload lies in the character class and none is a digit, the value is 0.0.
\<close>

theorem mqttCallback_text_payload:
  assumes "isAsciiNumber payload"
  shows "mqttCallback topic payload s =
           mqttCallback_value topic (toFloat (trim payload))
             (emit (Serial_CB_Ascii (trim payload) (toFloat (trim payload))) s) \<and>
         (\<not> isfinite (toFloat (trim payload)) \<longrightarrow>
            mqttCallback topic payload s =
              s\<lparr>effects := effects s @
                 [Serial_CB_Ascii (trim payload) (toFloat (trim payload)), Serial_CB_Invalid]\<rparr>) \<and>
         (isfinite (toFloat (trim payload)) \<longrightarrow>
            temp_setpoint (mqttCallback MQTT_SUB_TOPIC_SP payload s) = toFloat (trim payload) \<and>
            temp_actual (mqttCallback MQTT_SUB_TOPIC_PV payload s) = toFloat (trim payload)) \<and>
         (list_all numeric_char payload \<and> \<not> list_ex isDigit payload \<longrightarrow>
            toFloat (trim payload) = Fin 0) \<and>
         (\<forall>pre rest. length pre = 64 \<longrightarrow>
            isAsciiNumber (pre @ rest) = list_all numeric_char pre) \<and>
         (\<forall>p. length p \<le> 64 \<longrightarrow> isAsciiNumber p = list_all numeric_char p)"
  using assms toFloat_no_digit[of payload] isAsciiNumber_first_64 isAsciiNumber_short
  by (simp add: mqttCallback_text mqttCallback_value_SP mqttCallback_value_PV
      mqttCallback_value_invalid emit_def)

theorem mqttCallback_text_payload_witness:
  "isAsciiNumber ''1e39'' \<and> \<not> isfinite (toFloat (trim ''1e39'')) \<and>
   mqttCallback MQTT_SUB_TOPIC_SP ''1e39'' defaults =
     defaults\<lparr>effects := effects defaults @ [Serial_CB_Ascii ''1e39'' PInf, Serial_CB_Invalid]\<rparr> \<and>
   isAsciiNumber ''23.5'' \<and> isfinite (toFloat (trim ''23.5'')) \<and>
   temp_setpoint (mqttCallback MQTT_SUB_TOPIC_SP ''23.5'' defaults) = Fin (47 / 2) \<and>
   isAsciiNumber ''+ e'' \<and> list_all numeric_char ''+ e'' \<and> \<not> list_ex isDigit ''+ e'' \<and>
   toFloat (trim ''+ e'') = Fin 0 \<and>
   length (replicate 64 CHR '' '') = 64 \<and>
   isAsciiNumber (replicate 64 CHR '' '' @ ''nan'') \<and>
   \<not> list_ex isDigit (replicate 64 CHR '' '' @ ''nan'') \<and>
   \<not> list_all numeric_char (replicate 64 CHR '' '' @ ''nan'') \<and>
   toFloat (trim (replicate 64 CHR '' '' @ ''nan'')) = NaN \<and>
   mqttCallback MQTT_SUB_TOPIC_SP (replicate 64 CHR '' '' @ ''nan'') defaults =
     defaults\<lparr>effects := effects defaults @ [Serial_CB_Ascii ''nan'' NaN, Serial_CB_Invalid]\<rparr> \<and>
   isAsciiNumber (replicate 64 CHR '' '' @ ''0x10'') \<and>
   temp_setpoint (mqttCallback MQTT_SUB_TOPIC_SP (replicate 64 CHR '' '' @ ''0x10'') defaults) = Fin 16 \<and>
   length (replicate 63 CHR '' '' @ ''x'') \<le> 64 \<and>
   \<not> isAsciiNumber (replicate 63 CHR '' '' @ ''x'')"
proof -
  have a1: "isAsciiNumber ''1e39''" by (simp add: isAsciiNumber_def numeric_char_def isDigit_def)
  have v1: "toFloat (trim ''1e39'') = PInf" by (simp add: text_eval round_eval)
  have t1: "trim ''1e39'' = ''1e39''" by (simp add: text_eval)
  have a2: "isAsciiNumber ''23.5''" by (simp add: isAsciiNumber_def numeric_char_def isDigit_def)
  have v2: "toFloat (trim ''23.5'') = Fin (47 / 2)" by (simp add: text_eval round_eval)
  have a3: "isAsciiNumber ''+ e''" by (simp add: isAsciiNumber_def numeric_char_def isDigit_def)
  have l3: "list_all numeric_char ''+ e''" by (simp add: numeric_char_def isDigit_def)
  have n3: "\<not> list_ex isDigit ''+ e''" by (simp add: isDigit_def)
  note T1 = mqttCallback_text_payload[OF a1, of MQTT_SUB_TOPIC_SP defaults]
  from T1[THEN conjunct2, THEN conjunct1] v1 t1
  have r1: "mqttCallback MQTT_SUB_TOPIC_SP ''1e39'' defaults =
     defaults\<lparr>effects := effects defaults @ [Serial_CB_Ascii ''1e39'' PInf, Serial_CB_Invalid]\<rparr>"
    by simp
  note T2 = mqttCallback_text_payload[OF a2, of MQTT_SUB_TOPIC_SP defaults]
  from T2[THEN conjunct2, THEN conjunct2, THEN conjunct1] v2
  have r2: "temp_setpoint (mqttCallback MQTT_SUB_TOPIC_SP ''23.5'' defaults) = Fin (47 / 2)"
    by simp
  note T3 = mqttCallback_text_payload[OF a3, of MQTT_SUB_TOPIC_SP defaults]
  from T3[THEN conjunct2, THEN conjunct2, THEN conjunct2, THEN conjunct1] l3 n3
  have r3: "toFloat (trim ''+ e'') = Fin 0" by simp
  note F64 = T3[THEN conjunct2, THEN conjunct2, THEN conjunct2, THEN conjunct2, THEN conjunct1,
      rule_format]
  note S64 = T3[THEN conjunct2, THEN conjunct2, THEN conjunct2, THEN conjunct2, THEN conjunct2,
      rule_format]
  have len: "length (replicate 64 CHR '' '') = 64" by simp
  have sp: "list_all numeric_char (replicate 64 CHR '' '')"
    by (simp add: list_all_iff numeric_char_def)
  have a4: "isAsciiNumber (replicate 64 CHR '' '' @ ''nan'')" using F64[OF len, of "''nan''"] sp by simp
  have n4: "\<not> list_ex isDigit (replicate 64 CHR '' '' @ ''nan'')"
    by (simp add: list_ex_iff isDigit_def)
  have c4: "\<not> list_all numeric_char (replicate 64 CHR '' '' @ ''nan'')"
    by (simp add: numeric_char_def isDigit_def)
  have t4: "trim (replicate 64 CHR '' '' @ ''nan'') = ''nan''"
    by (simp add: trim_leading_spaces) (simp add: text_eval)
  have v4: "toFloat ''nan'' = NaN" by (simp add: text_eval char_of_def)
  note T4 = mqttCallback_text_payload[OF a4, of MQTT_SUB_TOPIC_SP defaults]
  from T4[THEN conjunct2, THEN conjunct1] v4
  have r4: "mqttCallback MQTT_SUB_TOPIC_SP (replicate 64 CHR '' '' @ ''nan'') defaults =
     defaults\<lparr>effects := effects defaults @ [Serial_CB_Ascii ''nan'' NaN, Serial_CB_Invalid]\<rparr>"
    by (simp add: t4)
  have a5: "isAsciiNumber (replicate 64 CHR '' '' @ ''0x10'')" using F64[OF len, of "''0x10''"] sp by simp
  have t5: "trim (replicate 64 CHR '' '' @ ''0x10'') = ''0x10''"
    by (simp add: trim_leading_spaces) (simp add: text_eval)
  have v5: "toFloat ''0x10'' = Fin 16" by (simp add: text_eval round_eval)
  note T5 = mqttCallback_text_payload[OF a5, of MQTT_SUB_TOPIC_SP defaults]
  from T5[THEN conjunct2, THEN conjunct2, THEN conjunct1] v5
  have r5: "temp_setpoint (mqttCallback MQTT_SUB_TOPIC_SP (replicate 64 CHR '' '' @ ''0x10'') defaults) = Fin 16"
    by (simp add: t5)
  have l6: "length (replicate 63 CHR '' '' @ ''x'') \<le> 64" by simp
  have a6: "\<not> isAsciiNumber (replicate 63 CHR '' '' @ ''x'')"
    using S64[OF l6] by (simp add: numeric_char_def isDigit_def)
  from a1 v1 r1 a2 v2 r2 a3 l3 n3 r3 len a4 n4 c4 t4 v4 r4 a5 r5 l6 a6 show ?thesis
    by (simp only: isfinite.simps simp_thms)
qed

section \<open>The decoder: the order of the encodings\<close>

lemma mqttCallback_too_short:
  assumes "\<not> isAsciiNumber payload" and "length payload < 4"
  shows "mqttCallback topic payload s = s\<lparr>effects := effects s @ [Serial_CB_TooShort (length payload)]\<rparr>"
  using assms by (simp add: mqttCallback_def emit_def)

lemma mqttCallback_binary8:
  assumes "\<not> isAsciiNumber payload" and "8 \<le> length payload"
  shows "mqttCallback topic payload s =
           mqttCallback_value topic (double_to_float (decode64 (memcpy_word (take 8 payload))))
             (emit (Serial_CB_Binary8 (double_to_float (decode64 (memcpy_word (take 8 payload))))
                (length payload)) s)"
  using assms by (simp add: mqttCallback_def Let_def)

text \<open>
  Claim C9, as stated, fails in its last part: the 3-byte payload \<^verbatim>\<open>123\<close> is text, and
  on the setpoint topic it replaces the setpoint 25 by 123.
\<close>

theorem mqttCallback_three_byte_text_accepted:
  "length ''123'' = 3 \<and> temp_setpoint defaults = Fin 25 \<and>
   temp_setpoint (mqttCallback MQTT_SUB_TOPIC_SP ''123'' defaults) = Fin 123"
proof -
  have a: "isAsciiNumber ''123''" by (simp add: isAsciiNumber_def numeric_char_def isDigit_def)
  have v: "toFloat (trim ''123'') = Fin 123" by (simp add: text_eval round_eval)
  have "temp_setpoint (mqttCallback MQTT_SUB_TOPIC_SP ''123'' defaults) = Fin 123"
    by (simp add: mqttCallback_text[OF a] v mqttCallback_value_SP emit_def)
  with defaults_signals(1) show ?thesis by simp
qed

text \<open>
  Claim C9, amended. The text \<^verbatim>\<open>23.5\<close> decodes to 23.5; the eight bytes of the double
  12.0, least significant first, are not text and decode to 12.0; and every 3-byte
  payload with a byte outside the character class is rejected: the state is as before
  but for one line on the serial port.
\<close>

theorem mqttCallback_disambiguation:
  "mqttCallback topic ''23.5'' s =
     mqttCallback_value topic (Fin (47 / 2)) (emit (Serial_CB_Ascii ''23.5'' (Fin (47 / 2))) s) \<and>
   temp_setpoint (mqttCallback MQTT_SUB_TOPIC_SP ''23.5'' s) = Fin (47 / 2) \<and>
   decode64 4622945017495814144 = Fin 12 \<and>
   memcpy_word [CHR 0x00, CHR 0x00, CHR 0x00, CHR 0x00, CHR 0x00, CHR 0x00, CHR 0x28, CHR 0x40] =
     (4622945017495814144 :: 64 word) \<and>
   mqttCallback topic [CHR 0x00, CHR 0x00, CHR 0x00, CHR 0x00, CHR 0x00, CHR 0x00, CHR 0x28, CHR 0x40] s =
     mqttCallback_value topic (Fin 12) (emit (Serial_CB_Binary8 (Fin 12) 8) s) \<and>
   temp_setpoint (mqttCallback MQTT_SUB_TOPIC_SP
      [CHR 0x00, CHR 0x00, CHR 0x00, CHR 0x00, CHR 0x00, CHR 0x00, CHR 0x28, CHR 0x40] s) = Fin 12 \<and>
   (\<forall>payload. length payload = 3 \<and> \<not> isAsciiNumber payload \<longrightarrow>
      mqttCallback topic payload s = s\<lparr>effects := effects s @ [Serial_CB_TooShort 3]\<rparr>)"
proof -
  have a: "isAsciiNumber ''23.5''" by (simp add: isAsciiNumber_def numeric_char_def isDigit_def)
  have t: "trim ''23.5'' = ''23.5''" by (simp add: text_eval)
  have v: "toFloat ''23.5'' = Fin (47 / 2)" by (simp add: text_eval round_eval)
  have c1: "mqttCallback topic ''23.5'' s =
     mqttCallback_value topic (Fin (47 / 2)) (emit (Serial_CB_Ascii ''23.5'' (Fin (47 / 2))) s)"
    for topic by (simp add: mqttCallback_text[OF a] t v)
  have c2: "temp_setpoint (mqttCallback MQTT_SUB_TOPIC_SP ''23.5'' s) = Fin (47 / 2)"
    by (simp add: c1 mqttCallback_value_SP emit_def)
  have b: "\<not> isAsciiNumber [CHR 0x00, CHR 0x00, CHR 0x00, CHR 0x00, CHR 0x00, CHR 0x00, CHR 0x28, CHR 0x40]"
    by (simp add: isAsciiNumber_def numeric_char_def isDigit_def)
  have w: "memcpy_word [CHR 0x00, CHR 0x00, CHR 0x00, CHR 0x00, CHR 0x00, CHR 0x00, CHR 0x28, CHR 0x40] =
     (4622945017495814144 :: 64 word)" by simp
  have d: "decode64 4622945017495814144 = Fin 12" by (simp add: decode64_def round_eval)
  have n: "fround binary32 False 12 = Fin 12" by (simp add: round_eval)
  have l8: "Suc (Suc (Suc (Suc (Suc (Suc (Suc (Suc 0))))))) = 8" by simp
  have c3: "mqttCallback topic [CHR 0x00, CHR 0x00, CHR 0x00, CHR 0x00, CHR 0x00, CHR 0x00, CHR 0x28, CHR 0x40] s =
     mqttCallback_value topic (Fin 12) (emit (Serial_CB_Binary8 (Fin 12) 8) s)"
    for topic using mqttCallback_binary8[OF b, of topic s] by (simp add: w d n l8)
  have c4: "temp_setpoint (mqttCallback MQTT_SUB_TOPIC_SP
      [CHR 0x00, CHR 0x00, CHR 0x00, CHR 0x00, CHR 0x00, CHR 0x00, CHR 0x28, CHR 0x40] s) = Fin 12"
    by (simp add: c3 mqttCallback_value_SP emit_def)
  have c5: "\<forall>payload. length payload = 3 \<and> \<not> isAsciiNumber payload \<longrightarrow>
      mqttCallback topic payload s = s\<lparr>effects := effects s @ [Serial_CB_TooShort 3]\<rparr>"
    using mqttCallback_too_short[of _ topic s] by auto
  from c1 c2 d w c3 c4 c5 show ?thesis by (intro conjI)
qed

theorem mqttCallback_disambiguation_witness:
  "length [CHR 0x01, CHR 0x02, CHR 0x03] = 3 \<and> \<not> isAsciiNumber [CHR 0x01, CHR 0x02, CHR 0x03] \<and>
   mqttCallback MQTT_SUB_TOPIC_SP [CHR 0x01, CHR 0x02, CHR 0x03] defaults =
     defaults\<lparr>effects := effects defaults @ [Serial_CB_TooShort 3]\<rparr> \<and>
   temp_setpoint (mqttCallback MQTT_SUB_TOPIC_SP ''23.5'' defaults) = Fin (47 / 2) \<and>
   temp_setpoint (mqttCallback MQTT_SUB_TOPIC_SP
      [CHR 0x00, CHR 0x00, CHR 0x00, CHR 0x00, CHR 0x00, CHR 0x00, CHR 0x28, CHR 0x40] defaults) = Fin 12"
proof -
  have l: "length [CHR 0x01, CHR 0x02, CHR 0x03] = 3" by simp
  have a: "\<not> isAsciiNumber [CHR 0x01, CHR 0x02, CHR 0x03]"
    by (simp add: isAsciiNumber_def numeric_char_def isDigit_def)
  note T = mqttCallback_disambiguation[of MQTT_SUB_TOPIC_SP defaults]
  from T have r: "length [CHR 0x01, CHR 0x02, CHR 0x03] = 3 \<and> \<not> isAsciiNumber [CHR 0x01, CHR 0x02, CHR 0x03] \<longrightarrow>
      mqttCallback MQTT_SUB_TOPIC_SP [CHR 0x01, CHR 0x02, CHR 0x03] defaults =
        defaults\<lparr>effects := effects defaults @ [Serial_CB_TooShort 3]\<rparr>"
    by (elim conjE allE)
  from T have s1: "temp_setpoint (mqttCallback MQTT_SUB_TOPIC_SP ''23.5'' defaults) = Fin (47 / 2)"
    by (elim conjE)
  from T have s2: "temp_setpoint (mqttCallback MQTT_SUB_TOPIC_SP
      [CHR 0x00, CHR 0x00, CHR 0x00, CHR 0x00, CHR 0x00, CHR 0x00, CHR 0x28, CHR 0x40] defaults) = Fin 12"
    by (elim conjE)
  from r l a have r': "mqttCallback MQTT_SUB_TOPIC_SP [CHR 0x01, CHR 0x02, CHR 0x03] defaults =
        defaults\<lparr>effects := effects defaults @ [Serial_CB_TooShort 3]\<rparr>" by blast
  from l a r' s1 s2 show ?thesis by (intro conjI)
qed

section \<open>The output is not always within 0..100\<close>

lemma initial_reset_idle: "\<not> reset_due s \<Longrightarrow> initial_reset s = s"
  by (simp add: initial_reset_def)

lemma initial_reset_frame:
  "Kpos (initial_reset s) = Kpos s" "Kneg (initial_reset s) = Kneg s"
  "temp_setpoint (initial_reset s) = temp_setpoint s"
  "sampleIndex (initial_reset s) = sampleIndex s"
  by (simp_all add: initial_reset_def emit_def Let_def)

lemma control_task_fields:
  "u_logic (control_task True s) = u_logic (applyControl (initial_reset s))"
  "error_k_1 (control_task True s) = error_k_1 (applyControl (initial_reset s))"
  "pos_deg (control_task True s) = pos_deg (applyControl (initial_reset s))"
  "temp_setpoint (control_task True s) = temp_setpoint s"
  "temp_actual (control_task True s) = temp_actual (initial_reset s)"
  "Kpos (control_task True s) = Kpos s" "Kneg (control_task True s) = Kneg s"
  "sampleIndex (control_task True s) = sampleIndex s + 1"
  "initial_state_reset (control_task True s) = initial_state_reset (initial_reset s)"
  by (simp_all add: control_task_def publishState_def emit_def Let_def applyControl_frame
      initial_reset_frame)

lemma defaults_memory:
  "u_logic defaults = Fin 25" "error_k_1 defaults = Fin 0" "sampleIndex defaults = 0"
  "initial_state_reset defaults = False"
  by (simp_all add: defaults_def setup_controller_def setServoDegrees_def
      recalculateCoefficients_def emit_def globals_def Let_def)

lemma mqttCallback_SP_fields:
  assumes "isAsciiNumber payload" and "isfinite (toFloat (trim payload))"
  shows "temp_setpoint (mqttCallback MQTT_SUB_TOPIC_SP payload s) = toFloat (trim payload)"
    "temp_actual (mqttCallback MQTT_SUB_TOPIC_SP payload s) = temp_actual s"
    "Kpos (mqttCallback MQTT_SUB_TOPIC_SP payload s) = Kpos s"
    "Kneg (mqttCallback MQTT_SUB_TOPIC_SP payload s) = Kneg s"
  using assms by (simp_all add: mqttCallback_text mqttCallback_value_SP emit_def)

lemma applyControl_output_range:
  assumes "\<not> is_nan (u_logic (applyControl s))"
  shows "fle (Fin 0) (u_logic (applyControl s)) \<and> fle (u_logic (applyControl s)) (Fin 100)"
proof -
  define raw where "raw = fadd (fadd (u_logic s) (fmul (Kpos s) (fsub (temp_setpoint s) (temp_actual s))))
                  (fmul (Kneg s) (error_k_1 s))"
  have u: "u_logic (applyControl s) =
      (if flt raw (Fin 0) then Fin 0 else if flt (Fin 100) raw then Fin 100 else raw)"
    by (simp add: applyControl_u_logic raw_def Let_def)
  from assms show ?thesis unfolding u by (cases raw) (auto simp: flt_def fle_def)
qed

text \<open>
  Claim C3 fails on the code. The setpoint 3e38 is a finite \<^verbatim>\<open>float\<close> and the callback
  accepts it. In the first control step the product \<open>b0 * error\<close> overflows to plus
  infinity and the output is clamped to 100; in the second, \<open>b0 * error\<close> is plus infinity
  and \<open>b1 * previous error\<close> minus infinity, their sum is a NaN, both comparisons of the
  clamp are false for a NaN, and \<^verbatim>\<open>u_logic\<close> is left holding the NaN, outside 0..100.
\<close>

theorem applyControl_nan_escapes_clamp:
  "isAsciiNumber ''3e38'' \<and> isfinite (toFloat (trim ''3e38'')) \<and>
   u_logic (run [Message MQTT_SUB_TOPIC_SP ''3e38'', Period True] defaults) = Fin 100 \<and>
   u_logic (run [Message MQTT_SUB_TOPIC_SP ''3e38'', Period True, Period True] defaults) = NaN \<and>
   \<not> fle (Fin 0) (u_logic (run [Message MQTT_SUB_TOPIC_SP ''3e38'', Period True, Period True] defaults)) \<and>
   \<not> fle (u_logic (run [Message MQTT_SUB_TOPIC_SP ''3e38'', Period True, Period True] defaults)) (Fin 100)"
proof -
  define V :: rat where "V = 300000000549775575777803994281145270272"
  define s1 where "s1 = mqttCallback MQTT_SUB_TOPIC_SP ''3e38'' defaults"
  define s2 where "s2 = control_task True s1"
  define s3 where "s3 = control_task True s2"
  have a: "isAsciiNumber ''3e38''" by (simp add: isAsciiNumber_def numeric_char_def isDigit_def)
  have v: "toFloat (trim ''3e38'') = Fin V" unfolding V_def by (simp add: text_eval round_eval)
  then have f: "isfinite (toFloat (trim ''3e38''))" by simp
  have s1: "temp_setpoint s1 = Fin V" "temp_actual s1 = Fin 25" "u_logic s1 = Fin 25"
    "error_k_1 s1 = Fin 0" "Kpos s1 = Fin (10506731 / 2097152)"
    "Kneg s1 = Fin (- (10464789 / 2097152))" "sampleIndex s1 = 0"
    unfolding s1_def
    by (simp_all add: mqttCallback_SP_fields[OF a f] mqttCallback_frame v defaults_signals
        defaults_memory Kpos_defaults Kneg_defaults)
  have n1: "\<not> reset_due s1" by (simp add: reset_due_def s1)
  have e: "fsub (Fin V) (Fin 25) = Fin V" unfolding V_def by (simp add: fsub_def fadd_def round_eval)
  have p: "fmul (Fin (10506731 / 2097152)) (Fin V) = PInf"
    unfolding V_def by (simp add: fmul_def round_eval)
  have m: "fmul (Fin (- (10464789 / 2097152))) (Fin V) = NInf"
    unfolding V_def by (simp add: fmul_def round_eval)
  have z: "fmul (Fin (- (10464789 / 2097152))) (Fin 0) = NZero"
    by (simp add: fmul_def round_eval)
  have u2: "u_logic s2 = Fin 100"
    unfolding s2_def
    by (simp add: control_task_fields initial_reset_idle[OF n1] applyControl_u_logic s1 e p z
        fadd_def flt_def)
  have s2: "temp_setpoint s2 = Fin V" "temp_actual s2 = Fin 25" "error_k_1 s2 = Fin V"
    "Kpos s2 = Fin (10506731 / 2097152)" "Kneg s2 = Fin (- (10464789 / 2097152))"
    "sampleIndex s2 = 1"
    unfolding s2_def
    by (simp_all add: control_task_fields initial_reset_idle[OF n1] applyControl_error_k_1 s1 e)
  have n2: "\<not> reset_due s2" by (simp add: reset_due_def s2)
  have u3: "u_logic s3 = NaN"
    unfolding s3_def
    by (simp add: control_task_fields initial_reset_idle[OF n2] applyControl_u_logic s2 u2 e p m
        fadd_def flt_def)
  have r2: "run [Message MQTT_SUB_TOPIC_SP ''3e38'', Period True] defaults = s2"
    by (simp add: s2_def s1_def)
  have r3: "run [Message MQTT_SUB_TOPIC_SP ''3e38'', Period True, Period True] defaults = s3"
    by (simp add: s3_def s2_def s1_def)
  show ?thesis unfolding r2 r3 using a f u2 u3 by (simp add: fle_def)
qed

lemma state_after_overflow:
  defines "s \<equiv> run [Message MQTT_SUB_TOPIC_SP ''3e38'', Period True] defaults"
  shows "temp_setpoint s = Fin 300000000549775575777803994281145270272"
    and "temp_actual s = Fin 25"
    and "u_logic s = Fin 100"
    and "error_k_1 s = Fin 300000000549775575777803994281145270272"
    and "Kpos s = Fin (10506731 / 2097152)"
    and "Kneg s = Fin (- (10464789 / 2097152))"
proof -
  define V :: rat where "V = 300000000549775575777803994281145270272"
  define s1 where "s1 = mqttCallback MQTT_SUB_TOPIC_SP ''3e38'' defaults"
  have a: "isAsciiNumber ''3e38''" by (simp add: isAsciiNumber_def numeric_char_def isDigit_def)
  have v: "toFloat (trim ''3e38'') = Fin V" unfolding V_def by (simp add: text_eval round_eval)
  then have f: "isfinite (toFloat (trim ''3e38''))" by simp
  have s1: "temp_setpoint s1 = Fin V" "temp_actual s1 = Fin 25" "u_logic s1 = Fin 25"
    "error_k_1 s1 = Fin 0" "Kpos s1 = Fin (10506731 / 2097152)"
    "Kneg s1 = Fin (- (10464789 / 2097152))" "sampleIndex s1 = 0"
    unfolding s1_def
    by (simp_all add: mqttCallback_SP_fields[OF a f] mqttCallback_frame v defaults_signals
        defaults_memory Kpos_defaults Kneg_defaults)
  have n1: "\<not> reset_due s1" by (simp add: reset_due_def s1)
  have e: "fsub (Fin V) (Fin 25) = Fin V" unfolding V_def by (simp add: fsub_def fadd_def round_eval)
  have p: "fmul (Fin (10506731 / 2097152)) (Fin V) = PInf"
    unfolding V_def by (simp add: fmul_def round_eval)
  have z: "fmul (Fin (- (10464789 / 2097152))) (Fin 0) = NZero"
    by (simp add: fmul_def round_eval)
  have r: "s = control_task True s1" by (simp add: s_def s1_def)
  show "temp_setpoint s = Fin 300000000549775575777803994281145270272"
    and "temp_actual s = Fin 25"
    and "u_logic s = Fin 100"
    and "error_k_1 s = Fin 300000000549775575777803994281145270272"
    and "Kpos s = Fin (10506731 / 2097152)"
    and "Kneg s = Fin (- (10464789 / 2097152))"
    unfolding r V_def[symmetric]
    by (simp_all add: control_task_fields initial_reset_idle[OF n1] applyControl_u_logic
        applyControl_error_k_1 s1 e p z fadd_def flt_def)
qed

text \<open>
  Claim C2 fails on the code, by the defect of claim C3. In the state the setpoint 3e38
  and one control step lead to from the defaults, every variable the step reads is
  finite and the output is 100. There the raw output \<open>u + b0 * e + b1 * e_prev\<close> is plus
  infinity plus minus infinity, a NaN, and \<^verbatim>\<open>applyControl\<close> stores that NaN as the new
  output and as the position: the raw output is not clamped to 0..100. The error is
  stored as the claim says.
\<close>

theorem applyControl_clamp_misses_nan:
  "let s = run [Message MQTT_SUB_TOPIC_SP ''3e38'', Period True] defaults;
       e = fsub (temp_setpoint s) (temp_actual s);
       raw = fadd (fadd (u_logic s) (fmul (Kpos s) e)) (fmul (Kneg s) (error_k_1 s))
   in isfinite (temp_setpoint s) \<and> isfinite (temp_actual s) \<and> isfinite (error_k_1 s) \<and>
      isfinite (Kpos s) \<and> isfinite (Kneg s) \<and> u_logic s = Fin 100 \<and>
      raw = NaN \<and>
      u_logic (applyControl s) = NaN \<and>
      \<not> (fle (Fin 0) (u_logic (applyControl s)) \<and> fle (u_logic (applyControl s)) (Fin 100)) \<and>
      error_k_1 (applyControl s) = e \<and>
      pos_deg (applyControl s) = NaN"
proof -
  define V :: rat where "V = 300000000549775575777803994281145270272"
  define s where "s = run [Message MQTT_SUB_TOPIC_SP ''3e38'', Period True] defaults"
  note st = state_after_overflow[folded s_def V_def]
  have e: "fsub (Fin V) (Fin 25) = Fin V" unfolding V_def by (simp add: fsub_def fadd_def round_eval)
  have p: "fmul (Fin (10506731 / 2097152)) (Fin V) = PInf"
    unfolding V_def by (simp add: fmul_def round_eval)
  have m: "fmul (Fin (- (10464789 / 2097152))) (Fin V) = NInf"
    unfolding V_def by (simp add: fmul_def round_eval)
  have raw: "fadd (fadd (u_logic s) (fmul (Kpos s) (fsub (temp_setpoint s) (temp_actual s))))
               (fmul (Kneg s) (error_k_1 s)) = NaN"
    by (simp add: st e p m fadd_def)
  have u: "u_logic (applyControl s) = NaN"
    by (simp add: applyControl_u_logic raw flt_def)
  have d: "pos_deg (applyControl s) = NaN"
    by (simp add: applyControl_pos_deg u fdiv_def fmul_def fadd_def)
  have ek: "error_k_1 (applyControl s) = fsub (temp_setpoint s) (temp_actual s)"
    by (rule applyControl_error_k_1)
  show ?thesis
    unfolding Let_def s_def[symmetric]
    using raw u d ek by (simp add: st fle_def)
qed

section \<open>The initial reset\<close>

lemma initial_reset_action:
  assumes "reset_due s"
  shows "u_logic (initial_reset s) = Fin 50 \<and> error_k_1 (initial_reset s) = Fin 0 \<and>
         temp_actual (initial_reset s) = temp_setpoint s \<and>
         temp_setpoint (initial_reset s) = temp_setpoint s \<and>
         initial_state_reset (initial_reset s)"
  using assms by (simp add: initial_reset_def emit_def Let_def)

lemma flag_blocks_reset:
  assumes "initial_state_reset s"
  shows "\<not> reset_due s \<and> initial_reset s = s"
  using assms by (simp add: reset_due_def initial_reset_def)

lemma flag_stays:
  assumes "initial_state_reset s"
  shows "initial_state_reset (step s i)"
proof (cases "i = Period True")
  case True
  then show ?thesis using assms flag_blocks_reset[OF assms] by (simp add: control_task_fields)
next
  case False
  then show ?thesis using assms step_frame[of i s] by simp
qed

lemma fround32_50 [simp]: "fround binary32 s 50 = Fin 50"
  by (simp add: round_eval)

lemma fsub_self: "isfinite x \<Longrightarrow> fsub x x = Fin 0"
  by (cases x) (simp_all add: fsub_def fadd_def zero_of_def)

lemma fmul_zero: "isfinite k \<Longrightarrow> fmul k (Fin 0) = Fin 0 \<or> fmul k (Fin 0) = NZero"
  by (cases k) (simp_all add: fmul_def zero_of_def)

lemma fadd_50_zero: "z = Fin 0 \<or> z = NZero \<Longrightarrow> fadd (Fin 50) z = Fin 50"
  by (auto simp: fadd_def)

lemma reset_step_result:
  assumes due: "reset_due s" and sp: "isfinite (temp_setpoint s)"
    and kp: "isfinite (Kpos s)" and kn: "isfinite (Kneg s)"
  shows "u_logic (control_task True s) = Fin 50 \<and> error_k_1 (control_task True s) = Fin 0 \<and>
         temp_actual (control_task True s) = temp_setpoint s \<and>
         initial_state_reset (control_task True s)"
proof -
  note a = initial_reset_action[OF due]
  have e: "fsub (temp_setpoint s) (temp_setpoint s) = Fin 0" using sp by (rule fsub_self)
  have "fadd (Fin 50) (fmul (Kpos s) (Fin 0)) = Fin 50"
    using fmul_zero[OF kp] by (rule fadd_50_zero)
  then have raw: "fadd (fadd (Fin 50) (fmul (Kpos s) (Fin 0))) (fmul (Kneg s) (Fin 0)) = Fin 50"
    using fadd_50_zero[OF fmul_zero[OF kn]] by simp
  have "u_logic (control_task True s) = Fin 50"
    by (simp add: control_task_fields applyControl_u_logic a initial_reset_frame e raw flt_def)
  moreover have "error_k_1 (control_task True s) = Fin 0"
    by (simp add: control_task_fields applyControl_error_k_1 a e)
  ultimately show ?thesis by (simp add: control_task_fields a)
qed

text \<open>The state after \<open>n\<close> control steps of a run that started from the defaults.\<close>

lemma word5_neq: "n < 5 \<Longrightarrow> (of_nat n :: 32 word) \<noteq> 5"
proof -
  assume "n < 5"
  then consider "n = 0" | "n = 1" | "n = 2" | "n = 3" | "n = 4" by linarith
  then show ?thesis by cases simp_all
qed

lemma resets_count:
  assumes "if n \<le> 5 then \<not> initial_state_reset s \<and> sampleIndex s = of_nat n
           else initial_state_reset s"
  shows "resets ins s = (if n \<le> 5 \<and> 6 \<le> n + control_steps ins then 1 else 0) \<and>
         (reset_due (run ins s) \<longleftrightarrow> n + control_steps ins = 5)"
  using assms
proof (induction ins arbitrary: n s)
  case Nil
  consider (before) "n < 5" | (at) "n = 5" | (after) "5 < n" by linarith
  then show ?case
  proof cases
    case before
    with Nil word5_neq[OF before] show ?thesis by (simp add: control_steps_def reset_due_def)
  next
    case at
    with Nil show ?thesis by (simp add: control_steps_def reset_due_def)
  next
    case after
    with Nil show ?thesis by (simp add: control_steps_def reset_due_def)
  qed
next
  case (Cons i ins)
  show ?case
  proof (cases "i = Period True")
    case False
    from step_frame[OF False, of s] Cons.prems
    have inv: "if n \<le> 5 then \<not> initial_state_reset (step s i) \<and> sampleIndex (step s i) = of_nat n
               else initial_state_reset (step s i)"
      by (simp split: if_splits)
    from Cons.IH[OF inv] False show ?thesis by (simp add: control_steps_def)
  next
    case True
    consider (before) "n < 5" | (at) "n = 5" | (after) "5 < n" by linarith
    then show ?thesis
    proof cases
      case before
      with Cons.prems have nf: "\<not> initial_state_reset s" and ix: "sampleIndex s = of_nat n" by simp_all
      have nd: "\<not> reset_due s" using word5_neq[OF before] by (simp add: reset_due_def ix)
      have inv: "if Suc n \<le> 5 then \<not> initial_state_reset (step s i) \<and>
                     sampleIndex (step s i) = of_nat (Suc n)
                 else initial_state_reset (step s i)"
        using before nf ix by (simp add: True control_task_fields initial_reset_idle[OF nd])
      from Cons.IH[OF inv] nd before True show ?thesis by (simp add: control_steps_def)
    next
      case at
      with Cons.prems have nf: "\<not> initial_state_reset s" and ix: "sampleIndex s = 5" by simp_all
      have due: "reset_due s" by (simp add: reset_due_def nf ix)
      have inv: "if Suc n \<le> 5 then \<not> initial_state_reset (step s i) \<and>
                     sampleIndex (step s i) = of_nat (Suc n)
                 else initial_state_reset (step s i)"
        using at initial_reset_action[OF due] by (simp add: True control_task_fields)
      from Cons.IH[OF inv] due at True show ?thesis by (simp add: control_steps_def)
    next
      case after
      with Cons.prems have fl: "initial_state_reset s" by simp
      have inv: "if Suc n \<le> 5 then \<not> initial_state_reset (step s i) \<and>
                     sampleIndex (step s i) = of_nat (Suc n)
                 else initial_state_reset (step s i)"
        using after flag_stays[OF fl, of i] by simp
      from Cons.IH[OF inv] flag_blocks_reset[OF fl] after True show ?thesis
        by (simp add: control_steps_def)
    qed
  qed
qed

text \<open>
  Claim C5. In every run from the defaults, whatever messages arrive and however often
  the link drops, the initial reset is executed exactly once if the run has six control
  steps or more and never otherwise: it is due exactly when five control steps are done.
  It sets \<^verbatim>\<open>u_logic\<close> to 50, \<^verbatim>\<open>error_k_1\<close> to 0, the process variable to the setpoint
  and the flag to true; with finite coefficients and setpoint the control step it belongs
  to ends with these values. Once the flag is set the reset block does nothing, also in a
  state where \<^verbatim>\<open>sampleIndex\<close> is 5 again, and no step clears the flag.
\<close>

theorem initial_reset_fires_once:
  "(\<forall>ins. resets ins defaults = (if 6 \<le> control_steps ins then 1 else 0)) \<and>
   (\<forall>ins. reset_due (run ins defaults) \<longleftrightarrow> control_steps ins = 5) \<and>
   (\<forall>s. reset_due s \<longrightarrow>
      u_logic (initial_reset s) = Fin 50 \<and> error_k_1 (initial_reset s) = Fin 0 \<and>
      temp_actual (initial_reset s) = temp_setpoint s \<and>
      temp_setpoint (initial_reset s) = temp_setpoint s \<and>
      initial_state_reset (initial_reset s)) \<and>
   (\<forall>s. reset_due s \<and> isfinite (temp_setpoint s) \<and> isfinite (Kpos s) \<and> isfinite (Kneg s) \<longrightarrow>
      u_logic (control_task True s) = Fin 50 \<and> error_k_1 (control_task True s) = Fin 0 \<and>
      temp_actual (control_task True s) = temp_setpoint s \<and>
      initial_state_reset (control_task True s)) \<and>
   (\<forall>s. initial_state_reset s \<longrightarrow> \<not> reset_due s \<and> initial_reset s = s) \<and>
   (\<forall>s i. initial_state_reset s \<longrightarrow> initial_state_reset (step s i))"
proof -
  have inv0: "if (0::nat) \<le> 5 then \<not> initial_state_reset defaults \<and> sampleIndex defaults = of_nat 0
              else initial_state_reset defaults"
    by (simp add: defaults_memory)
  have a: "\<forall>ins. resets ins defaults = (if 6 \<le> control_steps ins then 1 else 0)"
    using resets_count[OF inv0] by simp
  have b: "\<forall>ins. reset_due (run ins defaults) \<longleftrightarrow> control_steps ins = 5"
    using resets_count[OF inv0] by simp
  have c: "\<forall>s. reset_due s \<longrightarrow>
      u_logic (initial_reset s) = Fin 50 \<and> error_k_1 (initial_reset s) = Fin 0 \<and>
      temp_actual (initial_reset s) = temp_setpoint s \<and>
      temp_setpoint (initial_reset s) = temp_setpoint s \<and>
      initial_state_reset (initial_reset s)"
    using initial_reset_action by blast
  have d: "\<forall>s. reset_due s \<and> isfinite (temp_setpoint s) \<and> isfinite (Kpos s) \<and> isfinite (Kneg s) \<longrightarrow>
      u_logic (control_task True s) = Fin 50 \<and> error_k_1 (control_task True s) = Fin 0 \<and>
      temp_actual (control_task True s) = temp_setpoint s \<and>
      initial_state_reset (control_task True s)"
    using reset_step_result by blast
  have e: "\<forall>s. initial_state_reset s \<longrightarrow> \<not> reset_due s \<and> initial_reset s = s"
    using flag_blocks_reset by blast
  have f: "\<forall>s i. initial_state_reset s \<longrightarrow> initial_state_reset (step s i)"
    using flag_stays by blast
  from a b c d e f show ?thesis by (intro conjI)
qed

theorem initial_reset_fires_once_witness:
  "control_steps (replicate 5 (Period True)) = 5 \<and>
   reset_due (run (replicate 5 (Period True)) defaults) \<and>
   u_logic (run (replicate 6 (Period True)) defaults) = Fin 50 \<and>
   error_k_1 (run (replicate 6 (Period True)) defaults) = Fin 0 \<and>
   temp_actual (run (replicate 6 (Period True)) defaults) = Fin 25 \<and>
   initial_state_reset (run (replicate 6 (Period True)) defaults) \<and>
   resets (replicate 5 (Period True)) defaults = 0 \<and>
   resets (replicate 6 (Period True)) defaults = 1 \<and>
   resets (replicate 9 (Period True)) defaults = 1 \<and>
   initial_state_reset (defaults\<lparr>sampleIndex := 5, initial_state_reset := True\<rparr>) \<and>
   sampleIndex (defaults\<lparr>sampleIndex := 5, initial_state_reset := True\<rparr>) = 5 \<and>
   initial_reset (defaults\<lparr>sampleIndex := 5, initial_state_reset := True\<rparr>) =
     defaults\<lparr>sampleIndex := 5, initial_state_reset := True\<rparr>"
proof -
  note T = initial_reset_fires_once
  define s5 where "s5 = run (replicate 5 (Period True)) defaults"
  have c5: "control_steps (replicate 5 (Period True)) = 5" by (simp add: control_steps_def)
  have c6: "control_steps (replicate 6 (Period True)) = 6" by (simp add: control_steps_def)
  have c9: "control_steps (replicate 9 (Period True)) = 9" by (simp add: control_steps_def)
  from T have b: "reset_due (run (replicate 5 (Period True)) defaults) \<longleftrightarrow>
      control_steps (replicate 5 (Period True)) = 5"
    by (elim conjE allE)
  with c5 have due: "reset_due s5" by (simp add: s5_def)
  have fr: "temp_setpoint s5 = Fin 25" "Kpos s5 = Kpos defaults" "Kneg s5 = Kneg defaults"
    unfolding s5_def
    by (simp_all add: eval_nat_numeral control_task_fields defaults_signals)
  then have fin: "isfinite (temp_setpoint s5)" "isfinite (Kpos s5)" "isfinite (Kneg s5)"
    by (simp_all add: Kpos_defaults Kneg_defaults)
  from T have d: "reset_due s5 \<and> isfinite (temp_setpoint s5) \<and> isfinite (Kpos s5) \<and>
      isfinite (Kneg s5) \<longrightarrow>
      u_logic (control_task True s5) = Fin 50 \<and> error_k_1 (control_task True s5) = Fin 0 \<and>
      temp_actual (control_task True s5) = temp_setpoint s5 \<and>
      initial_state_reset (control_task True s5)"
    by (elim conjE allE)
  with due fin have r: "u_logic (control_task True s5) = Fin 50"
    "error_k_1 (control_task True s5) = Fin 0" "temp_actual (control_task True s5) = Fin 25"
    "initial_state_reset (control_task True s5)"
    by (simp_all add: fr)
  have s6: "run (replicate 6 (Period True)) defaults = control_task True s5"
    by (simp add: s5_def eval_nat_numeral)
  note A = T[THEN conjunct1, rule_format]
  have a5: "resets (replicate 5 (Period True)) defaults = 0" by (simp add: A c5)
  have a6: "resets (replicate 6 (Period True)) defaults = 1" by (simp add: A c6)
  have a9: "resets (replicate 9 (Period True)) defaults = 1" by (simp add: A c9)
  from T have e: "initial_state_reset (defaults\<lparr>sampleIndex := 5, initial_state_reset := True\<rparr>) \<longrightarrow>
      \<not> reset_due (defaults\<lparr>sampleIndex := 5, initial_state_reset := True\<rparr>) \<and>
      initial_reset (defaults\<lparr>sampleIndex := 5, initial_state_reset := True\<rparr>) =
        defaults\<lparr>sampleIndex := 5, initial_state_reset := True\<rparr>"
    by (elim conjE allE)
  then have g: "initial_reset (defaults\<lparr>sampleIndex := 5, initial_state_reset := True\<rparr>) =
        defaults\<lparr>sampleIndex := 5, initial_state_reset := True\<rparr>" by simp
  from c5 due r a5 a6 a9 g show ?thesis
    unfolding s6 by (simp add: s5_def)
qed

end
